theory Spec2Isabelle
  imports Complex_Main "HOL-Library.AList" "HOL-Library.Sublist"
begin

section \<open>Balloono: the room simulation of \<^verbatim>\<open>app.py\<close>\<close>

text \<open>
  The development embeds the in-memory game engine of \<^verbatim>\<open>src/app.py\<close>:
  \<^verbatim>\<open>_advance_room\<close>, \<^verbatim>\<open>_cleanup_players\<close>, \<^verbatim>\<open>_player_speed\<close>,
  \<^verbatim>\<open>_new_balloon\<close>, \<^verbatim>\<open>_spawn_powerup\<close>, \<^verbatim>\<open>_spawn_banana_powerup\<close>,
  \<^verbatim>\<open>_apply_powerup\<close>, \<^verbatim>\<open>_room_state\<close>, \<^verbatim>\<open>api_input\<close> and \<^verbatim>\<open>api_poll\<close>.
  A leading underscore of a Python name is dropped, since an Isabelle name cannot start
  with one.

  Conventions of the embedding.
  \<^item> Python numbers (\<^verbatim>\<open>float\<close>, and the \<^verbatim>\<open>int\<close> constants mixed with them) are
    \<^typ>\<open>real\<close>: arithmetic is exact, there is no rounding, no infinity and no NaN.
    Counters that stay integers in Python (\<^verbatim>\<open>score\<close>, \<^verbatim>\<open>balloon_capacity\<close>, the
    columns of \<^verbatim>\<open>User\<close>) are \<^typ>\<open>int\<close>.
  \<^item> Every \<^verbatim>\<open>dict\<close> with a fixed set of keys is a record. Keys shared by several
    dicts (\<^verbatim>\<open>id\<close>, \<^verbatim>\<open>x\<close>, \<^verbatim>\<open>y\<close>, \<^verbatim>\<open>radius\<close>, \<^verbatim>\<open>color\<close>, \<^verbatim>\<open>player_id\<close>,
    \<^verbatim>\<open>type\<close>, \<^verbatim>\<open>name\<close>) carry a prefix naming the record.
  \<^item> \<^verbatim>\<open>room["players"]\<close> is an insertion-ordered dict: an association list in
    insertion order. \<^verbatim>\<open>.get(k)\<close> is \<^const>\<open>map_of\<close>, mutation of the looked-up
    player is \<^const>\<open>AList.map_entry\<close>, iteration over \<^verbatim>\<open>.values()\<close> walks the list.
  \<^item> \<^verbatim>\<open>list.remove(v)\<close> deletes the first element equal to \<^verbatim>\<open>v\<close>; dicts compare
    by value, so this is \<^const>\<open>remove1\<close> on lists of records.
  \<^item> \<^verbatim>\<open>random\<close>, \<^verbatim>\<open>uuid\<close> and \<^verbatim>\<open>time.monotonic\<close> are read from an explicit
    \<open>world\<close>; the SQL table \<^verbatim>\<open>users\<close> is an explicit map from the primary key.
\<close>

subsection \<open>Constants\<close>

definition GAME_WIDTH :: real where "GAME_WIDTH = 800"
definition GAME_HEIGHT :: real where "GAME_HEIGHT = 600"
definition PLAYER_SPEED :: real where "PLAYER_SPEED = 250"
definition BALLOON_MIN_SPEED :: real where "BALLOON_MIN_SPEED = 40"
definition BALLOON_MAX_SPEED :: real where "BALLOON_MAX_SPEED = 90"
definition BALLOON_RADIUS :: real where "BALLOON_RADIUS = 18"
definition BALLOON_SPAWN_BASE :: real where "BALLOON_SPAWN_BASE = 0.6"
definition BALLOON_SPAWN_PER_PLAYER :: real where "BALLOON_SPAWN_PER_PLAYER = 0.25"
definition PLAYER_COOLDOWN :: real where "PLAYER_COOLDOWN = 0.6"
definition PLAYER_TIMEOUT :: real where "PLAYER_TIMEOUT = 30"
definition BALLOON_FUSE :: real where "BALLOON_FUSE = 2.4"
definition BALLOON_BASE_RADIUS :: real where "BALLOON_BASE_RADIUS = 70"
definition POWERUP_SPAWN_INTERVAL :: real where "POWERUP_SPAWN_INTERVAL = 12"
definition BANANA_SPAWN_INTERVAL :: real where "BANANA_SPAWN_INTERVAL = 10"
definition BANANA_READY_WINDOW :: real where "BANANA_READY_WINDOW = 10"
definition BANANA_SLOW_DURATION :: real where "BANANA_SLOW_DURATION = 3"

definition COLOR_POOL :: "string list" where
  "COLOR_POOL = [''#ff5d5d'', ''#ffb347'', ''#f9e65c'', ''#6bd4ff'', ''#8b6bff'', ''#6bff95'']"

datatype powerup_type = Speed | Capacity | Strength | Banana

definition POWERUP_TYPES :: "powerup_type list" where
  "POWERUP_TYPES = [Speed, Capacity, Strength]"

subsection \<open>Entities\<close>

record player =
  p_id :: string
  user_id :: int
  p_name :: string
  p_x :: real
  vx :: real
  score :: int
  p_color :: string
  last_seen :: real
  last_shot :: real
  speed_mult :: real
  balloon_capacity :: int
  blast_radius :: real
  banana_ready_until :: real
  has_banana :: bool
  slow_until :: real

record balloon =
  b_id :: string
  b_x :: real
  b_y :: real
  vy :: real
  b_radius :: real
  b_color :: string

record placed_balloon =
  pb_id :: string
  pb_player_id :: string
  pb_x :: real
  pb_y :: real
  placed_at :: real
  fuse :: real
  pb_radius :: real

record explosion =
  e_id :: string
  e_x :: real
  e_y :: real
  e_radius :: real
  expires_at :: real
  e_player_id :: string

record powerup =
  pu_id :: string
  pu_type :: powerup_type
  pu_x :: real
  pu_y :: real

record banana =
  bn_id :: string
  bn_player_id :: string
  bn_x :: real
  bn_y :: real

record room =
  r_id :: string
  players :: "(string \<times> player) list"
  balloons :: "balloon list"
  placed_balloons :: "placed_balloon list"
  explosions :: "explosion list"
  powerups :: "powerup list"
  bananas :: "banana list"
  last_update :: real
  spawn_accum :: real
  powerup_timer :: real
  banana_timer :: real

subsection \<open>The statistics table\<close>

text \<open>
  A row of the table \<^verbatim>\<open>users\<close>, with the columns the engine reads or writes
  (\<^verbatim>\<open>password_hash\<close> and \<^verbatim>\<open>created_at\<close> belong to the login code).
  \<^verbatim>\<open>db.get(User, k)\<close> is application of the map; a missing row is \<^const>\<open>None\<close>.
\<close>

record user =
  username :: string
  total_score :: int
  games_played :: int
  balloons_placed :: int
  powerups_collected :: int

type_synonym database = "int \<rightharpoonup> user"

text \<open>\<^verbatim>\<open>user = db.get(User, k); if user: user.total_score += 1; db.commit()\<close> and its two siblings.\<close>

definition credit_score :: "int \<Rightarrow> database \<Rightarrow> database" where
  "credit_score k d =
     (case d k of None \<Rightarrow> d | Some u \<Rightarrow> d(k \<mapsto> u\<lparr>total_score := total_score u + 1\<rparr>))"

definition credit_powerup :: "int \<Rightarrow> database \<Rightarrow> database" where
  "credit_powerup k d =
     (case d k of None \<Rightarrow> d
      | Some u \<Rightarrow> d(k \<mapsto> u\<lparr>powerups_collected := powerups_collected u + 1\<rparr>))"

definition credit_balloon :: "int \<Rightarrow> database \<Rightarrow> database" where
  "credit_balloon k d =
     (case d k of None \<Rightarrow> d | Some u \<Rightarrow> d(k \<mapsto> u\<lparr>balloons_placed := balloons_placed u + 1\<rparr>))"

subsection \<open>Randomness, identifiers and the clock\<close>

text \<open>
  The values the process obtains from outside: the \<open>n\<close>-th call of
  \<^verbatim>\<open>random.random()\<close>, of the index choice inside \<^verbatim>\<open>random.choice\<close>, of
  \<^verbatim>\<open>uuid.uuid4().hex\<close> and of \<^verbatim>\<open>time.monotonic()\<close>. \<open>drawn\<close> counts the calls made
  so far; every call reads at that index and advances it.
\<close>

record world =
  unit_draws :: "nat \<Rightarrow> real"
  index_draws :: "nat \<Rightarrow> nat"
  uuid_draws :: "nat \<Rightarrow> string"
  clock_draws :: "nat \<Rightarrow> real"
  drawn :: nat

definition tick :: "world \<Rightarrow> world" where
  "tick w = w\<lparr>drawn := Suc (drawn w)\<rparr>"

text \<open>\<^verbatim>\<open>random.uniform(a, b)\<close> is \<^verbatim>\<open>a + (b - a) * random()\<close>.\<close>

definition random_uniform :: "real \<Rightarrow> real \<Rightarrow> world \<Rightarrow> real \<times> world" where
  "random_uniform a b w = (a + (b - a) * unit_draws w (drawn w), tick w)"

text \<open>\<^verbatim>\<open>random.choice(seq)\<close> on a non-empty sequence (both pools are non-empty constants).\<close>

definition random_choice :: "'a list \<Rightarrow> world \<Rightarrow> 'a \<times> world" where
  "random_choice xs w = (xs ! (index_draws w (drawn w) mod length xs), tick w)"

text \<open>\<^verbatim>\<open>uuid.uuid4().hex[:n]\<close>.\<close>

definition uuid4_hex :: "nat \<Rightarrow> world \<Rightarrow> string \<times> world" where
  "uuid4_hex n w = (take n (uuid_draws w (drawn w)), tick w)"

text \<open>\<^verbatim>\<open>_now()\<close>, that is \<^verbatim>\<open>time.monotonic()\<close>.\<close>

definition now_clock :: "world \<Rightarrow> real \<times> world" where
  "now_clock w = (clock_draws w (drawn w), tick w)"

text \<open>
  What \<^verbatim>\<open>_advance_room\<close> can touch: the room it is given, the table and the world.
\<close>

record sim =
  sim_room :: room
  sim_db :: database
  sim_world :: world

subsection \<open>The simulation step\<close>

text \<open>\<^verbatim>\<open>_player_speed\<close>.\<close>

definition player_speed :: "player \<Rightarrow> real \<Rightarrow> real" where
  "player_speed p now =
     (let slow_mult = (if now < slow_until p then 0.45 else 1)
      in PLAYER_SPEED * speed_mult p * slow_mult)"

text \<open>
  \<^verbatim>\<open>_new_balloon\<close>; the entries of the dict literal are evaluated in the order written.
\<close>

definition new_balloon :: "world \<Rightarrow> balloon \<times> world" where
  "new_balloon w0 =
     (let (i, w1) = uuid4_hex 8 w0;
          (x, w2) = random_uniform 40 (GAME_WIDTH - 40) w1;
          (u, w3) = random_uniform 0 80 w2;
          (v, w4) = random_uniform BALLOON_MIN_SPEED BALLOON_MAX_SPEED w3;
          (c, w5) = random_choice COLOR_POOL w4
      in (\<lparr>b_id = i, b_x = x, b_y = GAME_HEIGHT + BALLOON_RADIUS + u, vy = v,
           b_radius = BALLOON_RADIUS, b_color = c\<rparr>, w5))"

text \<open>\<^verbatim>\<open>_spawn_powerup\<close> and \<^verbatim>\<open>_spawn_banana_powerup\<close>.\<close>

definition spawn_powerup :: "sim \<Rightarrow> sim" where
  "spawn_powerup s =
     (let (t, w1) = random_choice POWERUP_TYPES (sim_world s);
          (i, w2) = uuid4_hex 8 w1;
          (x, w3) = random_uniform 50 (GAME_WIDTH - 50) w2;
          r = sim_room s
      in s\<lparr>sim_room :=
              r\<lparr>powerups := powerups r @
                   [\<lparr>pu_id = i, pu_type = t, pu_x = x, pu_y = GAME_HEIGHT - 55\<rparr>]\<rparr>,
            sim_world := w3\<rparr>)"

definition spawn_banana_powerup :: "sim \<Rightarrow> sim" where
  "spawn_banana_powerup s =
     (let (i, w1) = uuid4_hex 8 (sim_world s);
          (x, w2) = random_uniform 50 (GAME_WIDTH - 50) w1;
          r = sim_room s
      in s\<lparr>sim_room :=
              r\<lparr>powerups := powerups r @
                   [\<lparr>pu_id = i, pu_type = Banana, pu_x = x, pu_y = GAME_HEIGHT - 55\<rparr>]\<rparr>,
            sim_world := w2\<rparr>)"

text \<open>
  \<^verbatim>\<open>_apply_powerup\<close>. The banana case reads the clock again (\<^verbatim>\<open>_now()\<close>); it is not
  handed the \<^verbatim>\<open>now\<close> of the step.
\<close>

fun apply_powerup :: "player \<Rightarrow> powerup_type \<Rightarrow> world \<Rightarrow> player \<times> world" where
  "apply_powerup p Speed w = (p\<lparr>speed_mult := speed_mult p + 0.15\<rparr>, w)"
| "apply_powerup p Capacity w = (p\<lparr>balloon_capacity := balloon_capacity p + 1\<rparr>, w)"
| "apply_powerup p Strength w = (p\<lparr>blast_radius := blast_radius p + 12\<rparr>, w)"
| "apply_powerup p Banana w =
     (let (t, w1) = now_clock w
      in (p\<lparr>has_banana := True, banana_ready_until := t + BANANA_READY_WINDOW\<rparr>, w1))"

text \<open>Line 194: \<^verbatim>\<open>dt = max(0.0, min(0.05, now - room["last_update"]))\<close>.\<close>

definition step_dt :: "room \<Rightarrow> real \<Rightarrow> real" where
  "step_dt r now = max 0 (min 0.05 (now - last_update r))"

text \<open>Lines 197-201: the body of the loop over the players.\<close>

definition move_player :: "real \<Rightarrow> real \<Rightarrow> player \<Rightarrow> player" where
  "move_player now dt p =
     (let p1 = p\<lparr>p_x := p_x p + vx p * player_speed p now * dt\<rparr>;
          p2 = p1\<lparr>p_x := max 30 (min (GAME_WIDTH - 30) (p_x p1))\<rparr>
      in if has_banana p2 \<and> now > banana_ready_until p2 then p2\<lparr>has_banana := False\<rparr> else p2)"

definition move_players :: "real \<Rightarrow> real \<Rightarrow> room \<Rightarrow> room" where
  "move_players now dt r = r\<lparr>players := map (apsnd (move_player now dt)) (players r)\<rparr>"

text \<open>
  Lines 203-206. The loop walks a copy of the list and moves each balloon in place; a
  balloon now above the top edge is removed with \<^verbatim>\<open>remove\<close>. The balloons kept so far
  have \<open>y \<ge> -BALLOON_RADIUS\<close> and the moved one has not, so the first element equal to
  it is the balloon itself: the loop drops exactly the balloon it is visiting.
\<close>

fun move_balloons :: "real \<Rightarrow> balloon list \<Rightarrow> balloon list" where
  "move_balloons dt [] = []"
| "move_balloons dt (b # bs) =
     (let b' = b\<lparr>b_y := b_y b - vy b * dt\<rparr>
      in if b_y b' < - BALLOON_RADIUS then move_balloons dt bs else b' # move_balloons dt bs)"

text \<open>Lines 211-213: \<^verbatim>\<open>while room["spawn_accum"] >= 1.0\<close>.\<close>

function spawn_loop :: "sim \<Rightarrow> sim" where
  "spawn_loop s =
     (if spawn_accum (sim_room s) \<ge> 1
      then spawn_loop
             (s\<lparr>sim_room :=
                  (sim_room s)\<lparr>balloons := balloons (sim_room s) @ [fst (new_balloon (sim_world s))],
                               spawn_accum := spawn_accum (sim_room s) - 1\<rparr>,
                sim_world := snd (new_balloon (sim_world s))\<rparr>)
      else s)"
  by pat_completeness auto
termination
proof (relation "measure (\<lambda>s. nat \<lfloor>spawn_accum (sim_room s)\<rfloor>)")
  show "wf (measure (\<lambda>s. nat \<lfloor>spawn_accum (sim_room s)\<rfloor>))"
    by simp
next
  fix s :: sim
  let ?a = "spawn_accum (sim_room s)"
  assume "1 \<le> ?a"
  then have "1 \<le> \<lfloor>?a\<rfloor>" by linarith
  moreover have "\<lfloor>?a - 1\<rfloor> = \<lfloor>?a\<rfloor> - 1" by simp
  ultimately have "nat \<lfloor>?a - 1\<rfloor> < nat \<lfloor>?a\<rfloor>" by simp
  then show "(s\<lparr>sim_room :=
                  (sim_room s)\<lparr>balloons := balloons (sim_room s) @ [fst (new_balloon (sim_world s))],
                               spawn_accum := ?a - 1\<rparr>,
                sim_world := snd (new_balloon (sim_world s))\<rparr>, s)
             \<in> measure (\<lambda>s. nat \<lfloor>spawn_accum (sim_room s)\<rfloor>)"
    by simp
qed

declare spawn_loop.simps [simp del]

text \<open>Lines 208-213.\<close>

definition spawn_balloons :: "real \<Rightarrow> sim \<Rightarrow> sim" where
  "spawn_balloons dt s =
     (let r = sim_room s
      in spawn_loop
           (s\<lparr>sim_room :=
                r\<lparr>spawn_accum := spawn_accum r +
                     dt * (BALLOON_SPAWN_BASE + BALLOON_SPAWN_PER_PLAYER * real (length (players r)))\<rparr>\<rparr>))"

text \<open>Lines 215-218 and 220-223.\<close>

definition powerup_tick :: "real \<Rightarrow> sim \<Rightarrow> sim" where
  "powerup_tick dt s =
     (let r = sim_room s;
          s1 = s\<lparr>sim_room := r\<lparr>powerup_timer := powerup_timer r + dt\<rparr>\<rparr>
      in if powerup_timer (sim_room s1) \<ge> POWERUP_SPAWN_INTERVAL
         then (let s2 = spawn_powerup s1 in s2\<lparr>sim_room := (sim_room s2)\<lparr>powerup_timer := 0\<rparr>\<rparr>)
         else s1)"

definition banana_tick :: "real \<Rightarrow> sim \<Rightarrow> sim" where
  "banana_tick dt s =
     (let r = sim_room s;
          s1 = s\<lparr>sim_room := r\<lparr>banana_timer := banana_timer r + dt\<rparr>\<rparr>
      in if banana_timer (sim_room s1) \<ge> BANANA_SPAWN_INTERVAL
         then (let s2 = spawn_banana_powerup s1 in s2\<lparr>sim_room := (sim_room s2)\<lparr>banana_timer := 0\<rparr>\<rparr>)
         else s1)"

text \<open>
  Lines 225-237, the body of the loop over the copy of \<^verbatim>\<open>room["placed_balloons"]\<close>.
\<close>

definition fuse_step :: "real \<Rightarrow> placed_balloon \<Rightarrow> sim \<Rightarrow> sim" where
  "fuse_step now placed s =
     (if now - placed_at placed \<ge> fuse placed
      then (let r = sim_room s;
                (i, w1) = uuid4_hex 8 (sim_world s)
            in s\<lparr>sim_room :=
                    r\<lparr>placed_balloons := remove1 placed (placed_balloons r),
                      explosions := explosions r @
                        [\<lparr>e_id = i, e_x = pb_x placed, e_y = pb_y placed,
                          e_radius = pb_radius placed, expires_at = now + 0.4,
                          e_player_id = pb_player_id placed\<rparr>]\<rparr>,
                  sim_world := w1\<rparr>)
      else s)"

definition expire_fuses :: "real \<Rightarrow> sim \<Rightarrow> sim" where
  "expire_fuses now s = fold (fuse_step now) (placed_balloons (sim_room s)) s"

text \<open>Line 244-246: the overlap test of an explosion and a falling balloon.\<close>

definition blast_hits :: "explosion \<Rightarrow> balloon \<Rightarrow> bool" where
  "blast_hits e b =
     (let dx = e_x e - b_x b; dy = e_y e - b_y b
      in dx * dx + dy * dy \<le> (e_radius e + b_radius b) ^ 2)"

text \<open>
  Lines 248-255: the shooter is looked up by key; a player dict is never empty, so
  \<^verbatim>\<open>if shooter\<close> asks whether the key is present.
\<close>

definition credit_shooter :: "explosion \<Rightarrow> sim \<Rightarrow> sim" where
  "credit_shooter e s =
     (case map_of (players (sim_room s)) (e_player_id e) of
        None \<Rightarrow> s
      | Some shooter \<Rightarrow>
          s\<lparr>sim_room :=
              (sim_room s)\<lparr>players :=
                 AList.map_entry (e_player_id e) (\<lambda>p. p\<lparr>score := score p + 1\<rparr>)
                   (players (sim_room s))\<rparr>,
            sim_db := credit_score (user_id shooter) (sim_db s)\<rparr>)"

text \<open>Lines 243-255, the body of the inner loop over the copy of \<^verbatim>\<open>room["balloons"]\<close>.\<close>

definition blast_step :: "explosion \<Rightarrow> balloon \<Rightarrow> sim \<Rightarrow> sim" where
  "blast_step e b s =
     (if blast_hits e b
      then credit_shooter e
             (s\<lparr>sim_room := (sim_room s)\<lparr>balloons := remove1 b (balloons (sim_room s))\<rparr>\<rparr>)
      else s)"

text \<open>Lines 239-255, the body of the loop over the copy of \<^verbatim>\<open>room["explosions"]\<close>.\<close>

definition explosion_step :: "real \<Rightarrow> explosion \<Rightarrow> sim \<Rightarrow> sim" where
  "explosion_step now e s =
     (if now > expires_at e
      then s\<lparr>sim_room := (sim_room s)\<lparr>explosions := remove1 e (explosions (sim_room s))\<rparr>\<rparr>
      else fold (blast_step e) (balloons (sim_room s)) s)"

definition resolve_explosions :: "real \<Rightarrow> sim \<Rightarrow> sim" where
  "resolve_explosions now s = fold (explosion_step now) (explosions (sim_room s)) s"

text \<open>
  A \<^verbatim>\<open>for\<close> loop that mutates the first element passing a test and then leaves with
  \<^verbatim>\<open>break\<close>: the list is cut at that element. \<^const>\<open>None\<close> when the loop runs to its end.
\<close>

fun split_first :: "('a \<Rightarrow> bool) \<Rightarrow> 'a list \<Rightarrow> ('a list \<times> 'a \<times> 'a list) option" where
  "split_first P [] = None"
| "split_first P (x # xs) =
     (if P x then Some ([], x, xs)
      else (case split_first P xs of
              None \<Rightarrow> None
            | Some (pre, y, post) \<Rightarrow> Some (x # pre, y, post)))"

text \<open>Lines 259-261: the pickup test of a power-up and a player.\<close>

definition powerup_reach :: "powerup \<Rightarrow> player \<Rightarrow> bool" where
  "powerup_reach pu p =
     (let dx = pu_x pu - p_x p; dy = pu_y pu - (GAME_HEIGHT - 34)
      in dx * dx + dy * dy \<le> 26 ^ 2)"

text \<open>Lines 258-269, the body of the loop over the copy of \<^verbatim>\<open>room["powerups"]\<close>.\<close>

definition powerup_step :: "powerup \<Rightarrow> sim \<Rightarrow> sim" where
  "powerup_step pu s =
     (case split_first (\<lambda>(k, p). powerup_reach pu p) (players (sim_room s)) of
        None \<Rightarrow> s
      | Some (pre, (k, p), post) \<Rightarrow>
          (let (p', w1) = apply_powerup p (pu_type pu) (sim_world s)
           in s\<lparr>sim_room :=
                   (sim_room s)\<lparr>powerups := remove1 pu (powerups (sim_room s)),
                                players := pre @ (k, p') # post\<rparr>,
                 sim_db := credit_powerup (user_id p') (sim_db s),
                 sim_world := w1\<rparr>))"

definition collect_powerups :: "sim \<Rightarrow> sim" where
  "collect_powerups s = fold powerup_step (powerups (sim_room s)) s"

text \<open>
  Lines 272-277: the owner is skipped with \<^verbatim>\<open>continue\<close>, so the first player the
  loop acts on is the first that is not the owner and is within reach.
\<close>

definition banana_reach :: "banana \<Rightarrow> player \<Rightarrow> bool" where
  "banana_reach bn p =
     (p_id p \<noteq> bn_player_id bn \<and>
      (let dx = bn_x bn - p_x p; dy = bn_y bn - (GAME_HEIGHT - 34)
       in dx * dx + dy * dy \<le> 22 ^ 2))"

text \<open>Lines 272-280, the body of the loop over the copy of \<^verbatim>\<open>room["bananas"]\<close>.\<close>

definition banana_step :: "real \<Rightarrow> banana \<Rightarrow> room \<Rightarrow> room" where
  "banana_step now bn r =
     (case split_first (\<lambda>(k, p). banana_reach bn p) (players r) of
        None \<Rightarrow> r
      | Some (pre, (k, p), post) \<Rightarrow>
          r\<lparr>players :=
              pre @ (k, p\<lparr>slow_until := max (slow_until p) (now + BANANA_SLOW_DURATION)\<rparr>) # post,
            bananas := remove1 bn (bananas r)\<rparr>)"

definition collect_bananas :: "real \<Rightarrow> room \<Rightarrow> room" where
  "collect_bananas now r = fold (banana_step now) (bananas r) r"

text \<open>A step that only touches the room.\<close>

definition on_room :: "(room \<Rightarrow> room) \<Rightarrow> sim \<Rightarrow> sim" where
  "on_room f s = s\<lparr>sim_room := f (sim_room s)\<rparr>"

text \<open>\<^verbatim>\<open>_advance_room\<close>, lines 193-280, stage after stage on the state the previous one left.\<close>

definition advance_room :: "real \<Rightarrow> sim \<Rightarrow> sim" where
  "advance_room now s0 =
     (let dt = step_dt (sim_room s0) now;
          s1 = on_room (\<lambda>r. r\<lparr>last_update := now\<rparr>) s0;
          s2 = on_room (move_players now dt) s1;
          s3 = on_room (\<lambda>r. r\<lparr>balloons := move_balloons dt (balloons r)\<rparr>) s2;
          s4 = spawn_balloons dt s3;
          s5 = banana_tick dt (powerup_tick dt s4);
          s6 = expire_fuses now s5;
          s7 = resolve_explosions now s6;
          s8 = collect_powerups s7
      in on_room (collect_bananas now) s8)"

subsection \<open>The request handlers\<close>

text \<open>
  \<^verbatim>\<open>_cleanup_players\<close>: the stale keys are collected first, then popped one by one
  (\<^verbatim>\<open>pop(key, None)\<close> never raises).
\<close>

definition cleanup_players :: "real \<Rightarrow> room \<Rightarrow> room" where
  "cleanup_players now r =
     (let stale = map fst (filter (\<lambda>(k, p). now - last_seen p > PLAYER_TIMEOUT) (players r))
      in r\<lparr>players := fold AList.delete stale (players r)\<rparr>)"

text \<open>\<^verbatim>\<open>_room_state\<close>: the dict handed to \<^verbatim>\<open>jsonify\<close>.\<close>

record snapshot =
  roomId :: string
  width :: real
  height :: real
  snap_players :: "player list"
  snap_balloons :: "balloon list"
  placedBalloons :: "placed_balloon list"
  snap_explosions :: "explosion list"
  snap_powerups :: "powerup list"
  snap_bananas :: "banana list"
  serverTime :: real

definition room_state :: "room \<Rightarrow> world \<Rightarrow> snapshot \<times> world" where
  "room_state r w =
     (let (t, w1) = now_clock w
      in (\<lparr>roomId = r_id r, width = GAME_WIDTH, height = GAME_HEIGHT,
           snap_players = map snd (players r), snap_balloons = balloons r,
           placedBalloons = placed_balloons r, snap_explosions = explosions r,
           snap_powerups = powerups r, snap_bananas = bananas r, serverTime = t\<rparr>, w1))"

text \<open>
  The process-wide state: the registry \<^verbatim>\<open>ROOMS\<close> (every handler runs under
  \<^verbatim>\<open>ROOMS_LOCK\<close>, so a handler is one atomic transition), the table and the world.
\<close>

record server =
  ROOMS :: "string \<rightharpoonup> room"
  srv_db :: database
  srv_world :: world

text \<open>The two 404 answers; every other path answers 200.\<close>

datatype error = room_not_found | player_not_found

text \<open>
  Lines 417-438 of \<^verbatim>\<open>api_input\<close>, on the player dict \<open>player\<close> (already carrying the
  new \<^verbatim>\<open>last_seen\<close> and \<^verbatim>\<open>vx\<close>) and the room it lives in.
\<close>

definition place_balloon_part :: "string \<Rightarrow> real \<Rightarrow> bool \<Rightarrow> player \<times> sim \<Rightarrow> player \<times> sim" where
  "place_balloon_part player_id now place_balloon ps =
     (let player = fst ps; s = snd ps; r = sim_room s
      in if place_balloon \<and> now - last_shot player \<ge> PLAYER_COOLDOWN
         then (let active = filter (\<lambda>b. pb_player_id b = player_id) (placed_balloons r)
               in if int (length active) < balloon_capacity player
                  then (let player1 = player\<lparr>last_shot := now\<rparr>;
                            (i, w1) = uuid4_hex 8 (sim_world s)
                        in (player1,
                            s\<lparr>sim_room :=
                                r\<lparr>placed_balloons := placed_balloons r @
                                    [\<lparr>pb_id = i, pb_player_id = player_id, pb_x = p_x player1,
                                      pb_y = GAME_HEIGHT - 45, placed_at = now,
                                      fuse = BALLOON_FUSE, pb_radius = blast_radius player1\<rparr>]\<rparr>,
                              sim_db := credit_balloon (user_id player1) (sim_db s),
                              sim_world := w1\<rparr>))
                  else ps)
         else ps)"

text \<open>Lines 440-449 of \<^verbatim>\<open>api_input\<close>.\<close>

definition place_banana_part :: "string \<Rightarrow> real \<Rightarrow> bool \<Rightarrow> player \<times> sim \<Rightarrow> player \<times> sim" where
  "place_banana_part player_id now place_banana ps =
     (let player = fst ps; s = snd ps; r = sim_room s
      in if place_banana \<and> has_banana player \<and> now \<le> banana_ready_until player
         then (let (i, w1) = uuid4_hex 8 (sim_world s)
               in (player\<lparr>has_banana := False\<rparr>,
                   s\<lparr>sim_room :=
                       r\<lparr>bananas := bananas r @
                           [\<lparr>bn_id = i, bn_player_id = player_id, bn_x = p_x player,
                             bn_y = GAME_HEIGHT - 45\<rparr>]\<rparr>,
                     sim_world := w1\<rparr>))
         else ps)"

text \<open>
  \<^verbatim>\<open>api_input\<close>. The JSON fields arrive parsed: \<open>move\<close> is the number \<^verbatim>\<open>float(move)\<close>
  yields, the two flags are the \<^verbatim>\<open>bool(...)\<close> values. The handler mutates the one player
  dict it looked up; the model carries that dict along and stores it back under its key.
\<close>

definition api_input ::
  "string \<Rightarrow> string \<Rightarrow> real \<Rightarrow> bool \<Rightarrow> bool \<Rightarrow> server \<Rightarrow> error + server" where
  "api_input room_id player_id move place_balloon place_banana sv =
     (case ROOMS sv room_id of
        None \<Rightarrow> Inl room_not_found
      | Some rm \<Rightarrow>
          (case map_of (players rm) player_id of
             None \<Rightarrow> Inl player_not_found
           | Some player \<Rightarrow>
               (let (now, w1) = now_clock (srv_world sv);
                    player1 = player\<lparr>last_seen := now, vx := max (- 1) (min 1 move)\<rparr>;
                    s1 = \<lparr>sim_room = rm, sim_db = srv_db sv, sim_world = w1\<rparr>;
                    (player2, s2) = place_balloon_part player_id now place_balloon (player1, s1);
                    (player3, s3) = place_banana_part player_id now place_banana (player2, s2);
                    rm3 = (sim_room s3)\<lparr>players :=
                             AList.map_entry player_id (\<lambda>_. player3) (players (sim_room s3))\<rparr>
                in Inr (sv\<lparr>ROOMS := (ROOMS sv)(room_id \<mapsto> rm3), srv_db := sim_db s3,
                           srv_world := sim_world s3\<rparr>))))"

text \<open>\<^verbatim>\<open>api_poll\<close>: the answer is the snapshot, or one of the two 404 errors.\<close>

definition api_poll :: "string \<Rightarrow> string \<Rightarrow> server \<Rightarrow> error + (snapshot \<times> server)" where
  "api_poll room_id player_id sv =
     (case ROOMS sv room_id of
        None \<Rightarrow> Inl room_not_found
      | Some rm \<Rightarrow>
          (case map_of (players rm) player_id of
             None \<Rightarrow> Inl player_not_found
           | Some player \<Rightarrow>
               (let (now, w1) = now_clock (srv_world sv);
                    rm1 = rm\<lparr>players :=
                            AList.map_entry player_id (\<lambda>p. p\<lparr>last_seen := now\<rparr>) (players rm)\<rparr>;
                    rm2 = cleanup_players now rm1;
                    s = advance_room now \<lparr>sim_room = rm2, sim_db = srv_db sv, sim_world = w1\<rparr>;
                    (state, w2) = room_state (sim_room s) (sim_world s)
                in Inr (state,
                        sv\<lparr>ROOMS := (ROOMS sv)(room_id \<mapsto> sim_room s), srv_db := sim_db s,
                           srv_world := w2\<rparr>))))"

subsection \<open>Observations used by the properties\<close>

text \<open>Where every player stands, in the order of the dict.\<close>

definition positions :: "room \<Rightarrow> (string \<times> real) list" where
  "positions r = map (\<lambda>(k, p). (k, p_x p)) (players r)"

text \<open>The clock and the three accumulators of a room.\<close>

definition timers :: "room \<Rightarrow> real \<times> real \<times> real \<times> real" where
  "timers r = (last_update r, spawn_accum r, powerup_timer r, banana_timer r)"

text \<open>Two states of a run that hold the same room and will draw the same values.\<close>

definition same_run :: "sim \<Rightarrow> sim \<Rightarrow> bool" where
  "same_run s t \<longleftrightarrow> sim_room s = sim_room t \<and> sim_world s = sim_world t"

text \<open>
  The columns of a row of \<^verbatim>\<open>users\<close> that are neither \<^verbatim>\<open>total_score\<close> nor
  \<^verbatim>\<open>powerups_collected\<close>.
\<close>

definition other_columns :: "database \<Rightarrow> int \<Rightarrow> (string \<times> int \<times> int) option" where
  "other_columns d k = map_option (\<lambda>u. (username u, games_played u, balloons_placed u)) (d k)"

text \<open>In how many places two lists of the same length differ.\<close>

definition changed :: "'a list \<Rightarrow> 'a list \<Rightarrow> nat" where
  "changed xs ys = length (filter (\<lambda>(a, b). a \<noteq> b) (zip xs ys))"


text \<open>An explosion that has not expired and reaches the balloon.\<close>

definition live_hit :: "real \<Rightarrow> explosion \<Rightarrow> balloon \<Rightarrow> bool" where
  "live_hit now e b \<longleftrightarrow> \<not> now > expires_at e \<and> blast_hits e b"

text \<open>
  The \<open>player_id\<close> of the first explosion of the list, in the order the loop visits them,
  that is live and reaches the balloon.
\<close>

definition blast_owner :: "real \<Rightarrow> explosion list \<Rightarrow> balloon \<Rightarrow> string option" where
  "blast_owner now es b = map_option e_player_id (find (\<lambda>e. live_hit now e b) es)"

text \<open>The score of every player, in the order of the dict.\<close>

definition scores :: "room \<Rightarrow> (string \<times> int) list" where
  "scores r = map (\<lambda>(k, p). (k, score p)) (players r)"

text \<open>
  The state in which \<^verbatim>\<open>_advance_room\<close> reaches line 239: lines 194-237 of it.
\<close>

definition before_explosions :: "real \<Rightarrow> sim \<Rightarrow> sim" where
  "before_explosions now s0 =
     (let dt = step_dt (sim_room s0) now
      in expire_fuses now (banana_tick dt (powerup_tick dt (spawn_balloons dt
           (on_room (\<lambda>r. r\<lparr>balloons := move_balloons dt (balloons r)\<rparr>)
              (on_room (move_players now dt) (on_room (\<lambda>r. r\<lparr>last_update := now\<rparr>) s0)))))))"

subsection \<open>Concrete rooms\<close>

text \<open>
  Two worlds that differ in the value of \<^verbatim>\<open>random.random()\<close> only, with the clock at 100.
\<close>

definition world0 :: world where
  "world0 = \<lparr>unit_draws = (\<lambda>_. 0), index_draws = (\<lambda>_. 0),
             uuid_draws = (\<lambda>_. ''0123456789abcdef0123456789abcdef''),
             clock_draws = (\<lambda>_. 100), drawn = 0\<rparr>"

definition world1 :: world where
  "world1 = world0\<lparr>unit_draws := (\<lambda>_. 1 / 2)\<rparr>"

text \<open>
  A room at time 20 with one player, near the right edge and walking right, and a spawn
  accumulator about to reach 1; the same room under each of the two worlds, and in the
  registry.
\<close>

definition alice :: player where
  "alice = \<lparr>p_id = ''alice'', user_id = 1, p_name = ''alice'', p_x = 760, vx = 1, score = 0,
            p_color = ''#ff5d5d'', last_seen = 20, last_shot = 0, speed_mult = 1,
            balloon_capacity = 1, blast_radius = 70, banana_ready_until = 0,
            has_banana = False, slow_until = 0\<rparr>"

definition room0 :: room where
  "room0 = \<lparr>r_id = ''lobby'', players = [(''alice'', alice)], balloons = [],
            placed_balloons = [], explosions = [], powerups = [], bananas = [],
            last_update = 20, spawn_accum = 0.99, powerup_timer = 0, banana_timer = 0\<rparr>"

definition sim0 :: sim where
  "sim0 = \<lparr>sim_room = room0, sim_db = Map.empty, sim_world = world0\<rparr>"

definition sim1 :: sim where
  "sim1 = \<lparr>sim_room = room0, sim_db = Map.empty, sim_world = world1\<rparr>"

definition srv0 :: server where
  "srv0 = \<lparr>ROOMS = [''lobby'' \<mapsto> room0], srv_db = Map.empty, srv_world = world0\<rparr>"

text \<open>
  The room with a second player ten units to the left of the first, three falling
  balloons, an explosion of the first player's, and a power-up and a banana (owned by the
  first player) lying where the first player stands.
\<close>

definition bob :: player where
  "bob = \<lparr>p_id = ''bob'', user_id = 2, p_name = ''bob'', p_x = 750, vx = 0, score = 0,
          p_color = ''#6bd4ff'', last_seen = 20, last_shot = 0, speed_mult = 1,
          balloon_capacity = 1, blast_radius = 70, banana_ready_until = 0,
          has_banana = False, slow_until = 0\<rparr>"

definition banana0 :: banana where
  "banana0 = \<lparr>bn_id = ''0a0a0a0a'', bn_player_id = ''alice'', bn_x = 760, bn_y = 555\<rparr>"

definition powerup0 :: powerup where
  "powerup0 = \<lparr>pu_id = ''0b0b0b0b'', pu_type = Speed, pu_x = 760, pu_y = 545\<rparr>"

definition explosion0 :: explosion where
  "explosion0 = \<lparr>e_id = ''0c0c0c0c'', e_x = 400, e_y = 555, e_radius = 70, expires_at = 40,
                 e_player_id = ''alice''\<rparr>"

definition balloon_at :: "string \<Rightarrow> real \<Rightarrow> real \<Rightarrow> balloon" where
  "balloon_at i x y = \<lparr>b_id = i, b_x = x, b_y = y, vy = 40, b_radius = 18, b_color = ''#ff5d5d''\<rparr>"

definition room2 :: room where
  "room2 = room0\<lparr>players := [(''alice'', alice), (''bob'', bob)],
                 balloons := [balloon_at ''b1'' 400 500, balloon_at ''b2'' 400 400,
                              balloon_at ''b3'' 450 555],
                 explosions := [explosion0], powerups := [powerup0], bananas := [banana0]\<rparr>"

definition sim2 :: sim where
  "sim2 = \<lparr>sim_room = room2, sim_db = Map.empty, sim_world = world0\<rparr>"

text \<open>
  The same room with a fourth balloon, an expired explosion lying over the second balloon
  and a second live explosion, of the second player, next to the first.
\<close>

definition explosion1 :: explosion where
  "explosion1 = \<lparr>e_id = ''0d0d0d0d'', e_x = 420, e_y = 555, e_radius = 70, expires_at = 40,
                 e_player_id = ''bob''\<rparr>"

definition explosion_old :: explosion where
  "explosion_old = \<lparr>e_id = ''0e0e0e0e'', e_x = 400, e_y = 400, e_radius = 70, expires_at = 25,
                    e_player_id = ''bob''\<rparr>"

definition room3 :: room where
  "room3 = room2\<lparr>balloons := [balloon_at ''b1'' 400 500, balloon_at ''b2'' 400 400,
                              balloon_at ''b3'' 450 555, balloon_at ''b4'' 500 555],
                 explosions := [explosion_old, explosion0, explosion1]\<rparr>"

definition sim3 :: sim where
  "sim3 = \<lparr>sim_room = room3, sim_db = Map.empty, sim_world = world0\<rparr>"

section \<open>Properties\<close>

lemmas game_consts =
  GAME_WIDTH_def GAME_HEIGHT_def PLAYER_SPEED_def BALLOON_MIN_SPEED_def
  BALLOON_MAX_SPEED_def BALLOON_RADIUS_def BALLOON_SPAWN_BASE_def
  BALLOON_SPAWN_PER_PLAYER_def PLAYER_COOLDOWN_def PLAYER_TIMEOUT_def BALLOON_FUSE_def
  BALLOON_BASE_RADIUS_def POWERUP_SPAWN_INTERVAL_def BANANA_SPAWN_INTERVAL_def
  BANANA_READY_WINDOW_def BANANA_SLOW_DURATION_def

subsection \<open>Loops and frames\<close>

lemma fold_inv:
  assumes "P s" and "\<And>x s. P s \<Longrightarrow> P (f x s)"
  shows "P (fold f xs s)"
  using assms(1) by (induction xs arbitrary: s) (simp_all add: assms(2))

lemma split_first_SomeD:
  "split_first P xs = Some (pre, y, post) \<Longrightarrow> xs = pre @ y # post \<and> P y \<and> (\<forall>z\<in>set pre. \<not> P z)"
  by (induction xs arbitrary: pre) (auto split: if_splits option.splits)

lemma split_first_None: "split_first P xs = None \<longleftrightarrow> (\<forall>z\<in>set xs. \<not> P z)"
  by (induction xs) (auto split: option.splits)

lemma step_dt_bounds: "0 \<le> step_dt r now \<and> step_dt r now \<le> 0.05"
  by (simp add: step_dt_def max_def min_def)


lemma spawn_loop_frame:
  "players (sim_room (spawn_loop s)) = players (sim_room s) \<and>
   placed_balloons (sim_room (spawn_loop s)) = placed_balloons (sim_room s) \<and>
   explosions (sim_room (spawn_loop s)) = explosions (sim_room s) \<and>
   powerups (sim_room (spawn_loop s)) = powerups (sim_room s) \<and>
   bananas (sim_room (spawn_loop s)) = bananas (sim_room s) \<and>
   last_update (sim_room (spawn_loop s)) = last_update (sim_room s) \<and>
   powerup_timer (sim_room (spawn_loop s)) = powerup_timer (sim_room s) \<and>
   banana_timer (sim_room (spawn_loop s)) = banana_timer (sim_room s) \<and>
   r_id (sim_room (spawn_loop s)) = r_id (sim_room s) \<and>
   sim_db (spawn_loop s) = sim_db s"
proof (induction s rule: spawn_loop.induct)
  case (1 s)
  show ?case
  proof (cases "1 \<le> spawn_accum (sim_room s)")
    case True
    with 1 show ?thesis by (simp add: spawn_loop.simps [of s])
  next
    case False
    then show ?thesis by (simp add: spawn_loop.simps [of s])
  qed
qed

lemma spawn_loop_accum:
  "0 \<le> spawn_accum (sim_room s) \<Longrightarrow>
   0 \<le> spawn_accum (sim_room (spawn_loop s)) \<and> spawn_accum (sim_room (spawn_loop s)) < 1"
proof (induction s rule: spawn_loop.induct)
  case (1 s)
  show ?case
  proof (cases "1 \<le> spawn_accum (sim_room s)")
    case True
    with 1 show ?thesis by (simp add: spawn_loop.simps [of s])
  next
    case False
    with 1 show ?thesis by (simp add: spawn_loop.simps [of s])
  qed
qed

lemma spawn_loop_idle: "spawn_accum (sim_room s) < 1 \<Longrightarrow> spawn_loop s = s"
  by (simp add: spawn_loop.simps [of s])

lemma spawn_loop_below: "spawn_accum (sim_room (spawn_loop s)) < 1"
proof (induction s rule: spawn_loop.induct)
  case (1 s)
  show ?case
  proof (cases "1 \<le> spawn_accum (sim_room s)")
    case True
    with 1 show ?thesis by (simp add: spawn_loop.simps [of s])
  next
    case False
    then show ?thesis by (simp add: spawn_loop.simps [of s])
  qed
qed

lemma spawn_powerup_frame:
  "players (sim_room (spawn_powerup s)) = players (sim_room s) \<and>
   balloons (sim_room (spawn_powerup s)) = balloons (sim_room s) \<and>
   placed_balloons (sim_room (spawn_powerup s)) = placed_balloons (sim_room s) \<and>
   explosions (sim_room (spawn_powerup s)) = explosions (sim_room s) \<and>
   bananas (sim_room (spawn_powerup s)) = bananas (sim_room s) \<and>
   last_update (sim_room (spawn_powerup s)) = last_update (sim_room s) \<and>
   spawn_accum (sim_room (spawn_powerup s)) = spawn_accum (sim_room s) \<and>
   powerup_timer (sim_room (spawn_powerup s)) = powerup_timer (sim_room s) \<and>
   banana_timer (sim_room (spawn_powerup s)) = banana_timer (sim_room s) \<and>
   sim_db (spawn_powerup s) = sim_db s"
  by (simp add: spawn_powerup_def Let_def split: prod.splits)

lemma spawn_banana_powerup_frame:
  "players (sim_room (spawn_banana_powerup s)) = players (sim_room s) \<and>
   balloons (sim_room (spawn_banana_powerup s)) = balloons (sim_room s) \<and>
   placed_balloons (sim_room (spawn_banana_powerup s)) = placed_balloons (sim_room s) \<and>
   explosions (sim_room (spawn_banana_powerup s)) = explosions (sim_room s) \<and>
   bananas (sim_room (spawn_banana_powerup s)) = bananas (sim_room s) \<and>
   last_update (sim_room (spawn_banana_powerup s)) = last_update (sim_room s) \<and>
   spawn_accum (sim_room (spawn_banana_powerup s)) = spawn_accum (sim_room s) \<and>
   powerup_timer (sim_room (spawn_banana_powerup s)) = powerup_timer (sim_room s) \<and>
   banana_timer (sim_room (spawn_banana_powerup s)) = banana_timer (sim_room s) \<and>
   sim_db (spawn_banana_powerup s) = sim_db s"
  by (simp add: spawn_banana_powerup_def Let_def split: prod.splits)


lemma positions_map_entry:
  "(\<And>p. p_x (f p) = p_x p) \<Longrightarrow>
   map (\<lambda>(k, p). (k, p_x p)) (AList.map_entry k f ps) = map (\<lambda>(k, p). (k, p_x p)) ps"
  by (induction ps) auto

lemma apply_powerup_x: "p_x (fst (apply_powerup p t w)) = p_x p"
  by (cases t) (simp_all split: prod.splits)

lemma fuse_step_frame:
  "timers (sim_room (fuse_step now pb s)) = timers (sim_room s) \<and>
   players (sim_room (fuse_step now pb s)) = players (sim_room s) \<and>
   balloons (sim_room (fuse_step now pb s)) = balloons (sim_room s) \<and>
   powerups (sim_room (fuse_step now pb s)) = powerups (sim_room s) \<and>
   bananas (sim_room (fuse_step now pb s)) = bananas (sim_room s) \<and>
   sim_db (fuse_step now pb s) = sim_db s"
  by (simp add: fuse_step_def timers_def Let_def split: prod.splits)

lemma expire_fuses_frame:
  "timers (sim_room (expire_fuses now s)) = timers (sim_room s) \<and>
   players (sim_room (expire_fuses now s)) = players (sim_room s) \<and>
   balloons (sim_room (expire_fuses now s)) = balloons (sim_room s) \<and>
   powerups (sim_room (expire_fuses now s)) = powerups (sim_room s) \<and>
   bananas (sim_room (expire_fuses now s)) = bananas (sim_room s) \<and>
   sim_db (expire_fuses now s) = sim_db s"
  unfolding expire_fuses_def
  by (rule fold_inv) (simp_all add: fuse_step_frame)

lemma credit_shooter_frame:
  "timers (sim_room (credit_shooter e s)) = timers (sim_room s) \<and>
   positions (sim_room (credit_shooter e s)) = positions (sim_room s) \<and>
   balloons (sim_room (credit_shooter e s)) = balloons (sim_room s) \<and>
   explosions (sim_room (credit_shooter e s)) = explosions (sim_room s) \<and>
   placed_balloons (sim_room (credit_shooter e s)) = placed_balloons (sim_room s) \<and>
   powerups (sim_room (credit_shooter e s)) = powerups (sim_room s) \<and>
   bananas (sim_room (credit_shooter e s)) = bananas (sim_room s) \<and>
   sim_world (credit_shooter e s) = sim_world s"
  by (simp add: credit_shooter_def timers_def positions_def positions_map_entry split: option.splits)

lemma blast_step_frame:
  "timers (sim_room (blast_step e b s)) = timers (sim_room s) \<and>
   positions (sim_room (blast_step e b s)) = positions (sim_room s) \<and>
   explosions (sim_room (blast_step e b s)) = explosions (sim_room s) \<and>
   placed_balloons (sim_room (blast_step e b s)) = placed_balloons (sim_room s) \<and>
   powerups (sim_room (blast_step e b s)) = powerups (sim_room s) \<and>
   bananas (sim_room (blast_step e b s)) = bananas (sim_room s) \<and>
   sim_world (blast_step e b s) = sim_world s"
  by (simp add: blast_step_def credit_shooter_frame) (simp add: timers_def positions_def)

lemma subseq_remove1: "subseq (remove1 x xs) xs"
  by (induction xs) auto

lemma blast_step_balloons: "subseq (balloons (sim_room (blast_step e b s))) (balloons (sim_room s))"
  by (simp add: blast_step_def credit_shooter_frame subseq_remove1)

lemma explosion_step_frame:
  "timers (sim_room (explosion_step now e s)) = timers (sim_room s) \<and>
   positions (sim_room (explosion_step now e s)) = positions (sim_room s) \<and>
   placed_balloons (sim_room (explosion_step now e s)) = placed_balloons (sim_room s) \<and>
   powerups (sim_room (explosion_step now e s)) = powerups (sim_room s) \<and>
   bananas (sim_room (explosion_step now e s)) = bananas (sim_room s) \<and>
   sim_world (explosion_step now e s) = sim_world s"
proof (cases "now > expires_at e")
  case True
  then show ?thesis by (simp add: explosion_step_def timers_def positions_def)
next
  case False
  have "timers (sim_room (fold (blast_step e) bs s)) = timers (sim_room s) \<and>
   positions (sim_room (fold (blast_step e) bs s)) = positions (sim_room s) \<and>
   placed_balloons (sim_room (fold (blast_step e) bs s)) = placed_balloons (sim_room s) \<and>
   powerups (sim_room (fold (blast_step e) bs s)) = powerups (sim_room s) \<and>
   bananas (sim_room (fold (blast_step e) bs s)) = bananas (sim_room s) \<and>
   sim_world (fold (blast_step e) bs s) = sim_world s" for bs
    by (rule fold_inv) (simp_all add: blast_step_frame)
  with False show ?thesis by (simp add: explosion_step_def)
qed

lemma explosion_step_balloons:
  "subseq (balloons (sim_room (explosion_step now e s))) (balloons (sim_room s))"
proof (cases "now > expires_at e")
  case True
  then show ?thesis by (simp add: explosion_step_def)
next
  case False
  have "subseq (balloons (sim_room (fold (blast_step e) bs s))) (balloons (sim_room s))" for bs
    by (rule fold_inv) (auto intro: subseq_order.order_trans blast_step_balloons)
  with False show ?thesis by (simp add: explosion_step_def)
qed

lemma resolve_explosions_frame:
  "timers (sim_room (resolve_explosions now s)) = timers (sim_room s) \<and>
   positions (sim_room (resolve_explosions now s)) = positions (sim_room s) \<and>
   placed_balloons (sim_room (resolve_explosions now s)) = placed_balloons (sim_room s) \<and>
   powerups (sim_room (resolve_explosions now s)) = powerups (sim_room s) \<and>
   bananas (sim_room (resolve_explosions now s)) = bananas (sim_room s) \<and>
   sim_world (resolve_explosions now s) = sim_world s"
  unfolding resolve_explosions_def
  by (rule fold_inv) (simp_all add: explosion_step_frame)

lemma resolve_explosions_balloons:
  "subseq (balloons (sim_room (resolve_explosions now s))) (balloons (sim_room s))"
  unfolding resolve_explosions_def
  by (rule fold_inv) (auto intro: subseq_order.order_trans explosion_step_balloons)

lemma powerup_step_frame:
  "timers (sim_room (powerup_step pu s)) = timers (sim_room s) \<and>
   positions (sim_room (powerup_step pu s)) = positions (sim_room s) \<and>
   balloons (sim_room (powerup_step pu s)) = balloons (sim_room s) \<and>
   bananas (sim_room (powerup_step pu s)) = bananas (sim_room s)"
proof (cases "split_first (\<lambda>(k, p). powerup_reach pu p) (players (sim_room s))")
  case None
  then show ?thesis by (simp add: powerup_step_def)
next
  case (Some a)
  obtain pre k p post where a: "a = (pre, (k, p), post)" by (metis prod.exhaust)
  from Some a have "players (sim_room s) = pre @ (k, p) # post"
    using split_first_SomeD by fastforce
  with Some a apply_powerup_x [of p "pu_type pu" "sim_world s"] show ?thesis
    by (auto simp add: powerup_step_def timers_def positions_def split: prod.splits)
qed

lemma powerup_step_powerups:
  "subseq (powerups (sim_room (powerup_step pu s))) (powerups (sim_room s))"
  by (simp add: powerup_step_def subseq_remove1 split: option.splits prod.splits)

lemma collect_powerups_frame:
  "timers (sim_room (collect_powerups s)) = timers (sim_room s) \<and>
   positions (sim_room (collect_powerups s)) = positions (sim_room s) \<and>
   balloons (sim_room (collect_powerups s)) = balloons (sim_room s) \<and>
   bananas (sim_room (collect_powerups s)) = bananas (sim_room s)"
  unfolding collect_powerups_def
  by (rule fold_inv) (simp_all add: powerup_step_frame)

lemma collect_powerups_powerups:
  "subseq (powerups (sim_room (collect_powerups s))) (powerups (sim_room s))"
  unfolding collect_powerups_def
  by (rule fold_inv) (auto intro: subseq_order.order_trans powerup_step_powerups)

lemma banana_step_frame:
  "timers (banana_step now bn r) = timers r \<and>
   positions (banana_step now bn r) = positions r \<and>
   balloons (banana_step now bn r) = balloons r \<and>
   powerups (banana_step now bn r) = powerups r"
proof (cases "split_first (\<lambda>(k, p). banana_reach bn p) (players r)")
  case None
  then show ?thesis by (simp add: banana_step_def)
next
  case (Some a)
  obtain pre k p post where a: "a = (pre, (k, p), post)" by (metis prod.exhaust)
  from Some a have "players r = pre @ (k, p) # post"
    using split_first_SomeD by fastforce
  with Some a show ?thesis
    by (simp add: banana_step_def timers_def positions_def)
qed

lemma banana_step_bananas: "subseq (bananas (banana_step now bn r)) (bananas r)"
  by (simp add: banana_step_def subseq_remove1 split: option.splits prod.splits)

lemma collect_bananas_frame:
  "timers (collect_bananas now r) = timers r \<and>
   positions (collect_bananas now r) = positions r \<and>
   balloons (collect_bananas now r) = balloons r \<and>
   powerups (collect_bananas now r) = powerups r"
  unfolding collect_bananas_def
  by (rule fold_inv) (simp_all add: banana_step_frame)

lemma collect_bananas_bananas: "subseq (bananas (collect_bananas now r)) (bananas r)"
  unfolding collect_bananas_def
  by (rule fold_inv) (auto intro: subseq_order.order_trans banana_step_bananas)

lemma timers_fields:
  "timers r = timers r' \<Longrightarrow>
   last_update r = last_update r' \<and> spawn_accum r = spawn_accum r' \<and>
   powerup_timer r = powerup_timer r' \<and> banana_timer r = banana_timer r'"
  by (simp add: timers_def)

lemma powerup_tick_frame:
  "players (sim_room (powerup_tick dt s)) = players (sim_room s) \<and>
   balloons (sim_room (powerup_tick dt s)) = balloons (sim_room s) \<and>
   bananas (sim_room (powerup_tick dt s)) = bananas (sim_room s) \<and>
   last_update (sim_room (powerup_tick dt s)) = last_update (sim_room s) \<and>
   spawn_accum (sim_room (powerup_tick dt s)) = spawn_accum (sim_room s) \<and>
   banana_timer (sim_room (powerup_tick dt s)) = banana_timer (sim_room s) \<and>
   sim_db (powerup_tick dt s) = sim_db s"
  by (simp add: powerup_tick_def Let_def spawn_powerup_frame)

lemma powerup_tick_timer:
  "powerup_timer (sim_room (powerup_tick dt s)) < POWERUP_SPAWN_INTERVAL"
  by (simp add: powerup_tick_def Let_def POWERUP_SPAWN_INTERVAL_def)

lemma powerup_tick_idle:
  "powerup_timer (sim_room s) < POWERUP_SPAWN_INTERVAL \<Longrightarrow> powerup_tick 0 s = s"
  by (simp add: powerup_tick_def Let_def)

lemma banana_tick_frame:
  "players (sim_room (banana_tick dt s)) = players (sim_room s) \<and>
   balloons (sim_room (banana_tick dt s)) = balloons (sim_room s) \<and>
   bananas (sim_room (banana_tick dt s)) = bananas (sim_room s) \<and>
   last_update (sim_room (banana_tick dt s)) = last_update (sim_room s) \<and>
   spawn_accum (sim_room (banana_tick dt s)) = spawn_accum (sim_room s) \<and>
   powerup_timer (sim_room (banana_tick dt s)) = powerup_timer (sim_room s) \<and>
   sim_db (banana_tick dt s) = sim_db s"
  by (simp add: banana_tick_def Let_def spawn_banana_powerup_frame)

lemma banana_tick_timer:
  "banana_timer (sim_room (banana_tick dt s)) < BANANA_SPAWN_INTERVAL"
  by (simp add: banana_tick_def Let_def BANANA_SPAWN_INTERVAL_def)

lemma banana_tick_idle:
  "banana_timer (sim_room s) < BANANA_SPAWN_INTERVAL \<Longrightarrow> banana_tick 0 s = s"
  by (simp add: banana_tick_def Let_def)

lemma spawn_balloons_frame:
  "players (sim_room (spawn_balloons dt s)) = players (sim_room s) \<and>
   powerups (sim_room (spawn_balloons dt s)) = powerups (sim_room s) \<and>
   bananas (sim_room (spawn_balloons dt s)) = bananas (sim_room s) \<and>
   last_update (sim_room (spawn_balloons dt s)) = last_update (sim_room s) \<and>
   powerup_timer (sim_room (spawn_balloons dt s)) = powerup_timer (sim_room s) \<and>
   banana_timer (sim_room (spawn_balloons dt s)) = banana_timer (sim_room s) \<and>
   sim_db (spawn_balloons dt s) = sim_db s"
  by (simp add: spawn_balloons_def Let_def spawn_loop_frame)

lemma spawn_balloons_below: "spawn_accum (sim_room (spawn_balloons dt s)) < 1"
  by (simp add: spawn_balloons_def Let_def spawn_loop_below)

lemma spawn_balloons_accum:
  assumes "0 \<le> spawn_accum (sim_room s)" and "0 \<le> dt"
  shows "0 \<le> spawn_accum (sim_room (spawn_balloons dt s))"
proof -
  have "0 \<le> dt * (BALLOON_SPAWN_BASE + BALLOON_SPAWN_PER_PLAYER * real (length (players (sim_room s))))"
    using assms(2) by (simp add: BALLOON_SPAWN_BASE_def BALLOON_SPAWN_PER_PLAYER_def)
  with assms(1) show ?thesis
    by (simp add: spawn_balloons_def Let_def spawn_loop_accum)
qed

lemma spawn_balloons_idle:
  "spawn_accum (sim_room s) < 1 \<Longrightarrow> spawn_balloons 0 s = s"
  by (simp add: spawn_balloons_def Let_def spawn_loop_idle)

text \<open>The stages after the spawning ones.\<close>

lemma late_stages_frame:
  "timers (sim_room (on_room (collect_bananas now)
      (collect_powerups (resolve_explosions now (expire_fuses now s))))) = timers (sim_room s) \<and>
   positions (sim_room (on_room (collect_bananas now)
      (collect_powerups (resolve_explosions now (expire_fuses now s))))) = positions (sim_room s)"
  by (simp add: on_room_def collect_bananas_frame collect_powerups_frame resolve_explosions_frame
      expire_fuses_frame) (simp add: positions_def expire_fuses_frame)

lemma late_stages_subseq:
  "subseq (balloons (sim_room (on_room (collect_bananas now)
      (collect_powerups (resolve_explosions now (expire_fuses now s)))))) (balloons (sim_room s)) \<and>
   subseq (powerups (sim_room (on_room (collect_bananas now)
      (collect_powerups (resolve_explosions now (expire_fuses now s)))))) (powerups (sim_room s)) \<and>
   subseq (bananas (sim_room (on_room (collect_bananas now)
      (collect_powerups (resolve_explosions now (expire_fuses now s)))))) (bananas (sim_room s))"
proof -
  let ?s6 = "expire_fuses now s"
  let ?s7 = "resolve_explosions now ?s6"
  let ?s8 = "collect_powerups ?s7"
  have b: "subseq (balloons (sim_room ?s7)) (balloons (sim_room s))"
    using resolve_explosions_balloons [of now ?s6] by (simp add: expire_fuses_frame)
  have p: "subseq (powerups (sim_room ?s8)) (powerups (sim_room s))"
    using collect_powerups_powerups [of ?s7]
    by (simp add: resolve_explosions_frame expire_fuses_frame)
  have n: "subseq (bananas (collect_bananas now (sim_room ?s8))) (bananas (sim_room s))"
    using collect_bananas_bananas [of now "sim_room ?s8"]
    by (simp add: collect_powerups_frame resolve_explosions_frame expire_fuses_frame)
  from b p n show ?thesis
    by (simp add: on_room_def collect_bananas_frame collect_powerups_frame)
qed

lemma spawn_stages_frame:
  "players (sim_room (banana_tick dt (powerup_tick dt (spawn_balloons dt s)))) = players (sim_room s) \<and>
   last_update (sim_room (banana_tick dt (powerup_tick dt (spawn_balloons dt s)))) = last_update (sim_room s) \<and>
   bananas (sim_room (banana_tick dt (powerup_tick dt (spawn_balloons dt s)))) = bananas (sim_room s)"
  by (simp add: banana_tick_frame powerup_tick_frame spawn_balloons_frame)

lemma spawn_stages_timers:
  "spawn_accum (sim_room (banana_tick dt (powerup_tick dt (spawn_balloons dt s)))) < 1 \<and>
   powerup_timer (sim_room (banana_tick dt (powerup_tick dt (spawn_balloons dt s)))) < POWERUP_SPAWN_INTERVAL \<and>
   banana_timer (sim_room (banana_tick dt (powerup_tick dt (spawn_balloons dt s)))) < BANANA_SPAWN_INTERVAL"
  by (simp add: banana_tick_frame powerup_tick_frame spawn_balloons_below powerup_tick_timer banana_tick_timer)

lemma spawn_stages_idle:
  "spawn_accum (sim_room s) < 1 \<Longrightarrow> powerup_timer (sim_room s) < POWERUP_SPAWN_INTERVAL \<Longrightarrow>
   banana_timer (sim_room s) < BANANA_SPAWN_INTERVAL \<Longrightarrow>
   banana_tick 0 (powerup_tick 0 (spawn_balloons 0 s)) = s"
  by (simp add: spawn_balloons_idle powerup_tick_idle banana_tick_idle)

lemma move_player_range:
  "30 \<le> p_x (move_player now dt p) \<and> p_x (move_player now dt p) \<le> GAME_WIDTH - 30"
  by (simp add: move_player_def Let_def GAME_WIDTH_def)

lemma move_player_idle:
  "30 \<le> p_x p \<Longrightarrow> p_x p \<le> GAME_WIDTH - 30 \<Longrightarrow> p_x (move_player now 0 p) = p_x p"
  by (simp add: move_player_def Let_def GAME_WIDTH_def)

lemma move_balloons_idle: "move_balloons 0 bs = filter (\<lambda>b. \<not> b_y b < - BALLOON_RADIUS) bs"
  by (induction bs) (simp_all add: Let_def)

subsection \<open>The step as a whole\<close>

lemma advance_room_timers:
  "last_update (sim_room (advance_room now s)) = now \<and>
   spawn_accum (sim_room (advance_room now s)) < 1 \<and>
   powerup_timer (sim_room (advance_room now s)) < POWERUP_SPAWN_INTERVAL \<and>
   banana_timer (sim_room (advance_room now s)) < BANANA_SPAWN_INTERVAL"
  unfolding advance_room_def Let_def
  using timers_fields [OF conjunct1 [OF late_stages_frame]]
  by (simp add: spawn_stages_frame spawn_stages_timers) (simp add: on_room_def move_players_def)

lemma advance_room_positions:
  "positions (sim_room (advance_room now s)) =
   map (\<lambda>(k, p). (k, p_x (move_player now (step_dt (sim_room s) now) p))) (players (sim_room s))"
  unfolding advance_room_def Let_def
  by (simp add: late_stages_frame) (simp add: positions_def spawn_stages_frame on_room_def move_players_def split_def)

text \<open>
  Claim C1. Whatever the room and whatever \<open>now\<close> (so whatever the elapsed delta, negative
  or huge), after \<^verbatim>\<open>_advance_room\<close> every player of the room has its \<open>x\<close> in
  \<open>[30, GAME_WIDTH - 30]\<close>.
\<close>

theorem advance_room_players_in_arena:
  "\<forall>(k, p) \<in> set (players (sim_room (advance_room now s))). 30 \<le> p_x p \<and> p_x p \<le> GAME_WIDTH - 30"
proof -
  have "\<forall>(k, x) \<in> set (positions (sim_room (advance_room now s))). 30 \<le> x \<and> x \<le> GAME_WIDTH - 30"
    unfolding advance_room_positions using move_player_range by auto
  then show ?thesis by (force simp: positions_def)
qed

lemma spawn_loop_frac:
  "0 \<le> spawn_accum (sim_room s) \<Longrightarrow>
   spawn_accum (sim_room (spawn_loop s)) = frac (spawn_accum (sim_room s))"
proof (induction s rule: spawn_loop.induct)
  case (1 s)
  show ?case
  proof (cases "1 \<le> spawn_accum (sim_room s)")
    case True
    have "frac (spawn_accum (sim_room s) - 1) = frac (spawn_accum (sim_room s))"
      by (simp add: frac_def)
    with True 1 show ?thesis by (simp add: spawn_loop.simps [of s])
  next
    case False
    with 1 have "frac (spawn_accum (sim_room s)) = spawn_accum (sim_room s)"
      by (simp add: frac_eq)
    with False show ?thesis by (simp add: spawn_loop.simps [of s])
  qed
qed

lemma advance_room_accum_frac:
  assumes "0 \<le> spawn_accum (sim_room s)"
  shows "spawn_accum (sim_room (advance_room now s)) =
     frac (spawn_accum (sim_room s) + step_dt (sim_room s) now *
       (BALLOON_SPAWN_BASE + BALLOON_SPAWN_PER_PLAYER * real (length (players (sim_room s)))))"
proof -
  let ?dt = "step_dt (sim_room s) now"
  let ?s3 = "on_room (\<lambda>r. r\<lparr>balloons := move_balloons ?dt (balloons r)\<rparr>)
     (on_room (move_players now ?dt) (on_room (\<lambda>r. r\<lparr>last_update := now\<rparr>) s))"
  let ?rate = "BALLOON_SPAWN_BASE + BALLOON_SPAWN_PER_PLAYER * real (length (players (sim_room s)))"
  have s3: "spawn_accum (sim_room ?s3) = spawn_accum (sim_room s)"
    "length (players (sim_room ?s3)) = length (players (sim_room s))"
    by (simp_all add: on_room_def move_players_def)
  have "0 \<le> ?dt * ?rate"
    using step_dt_bounds [of "sim_room s" now]
    by (simp add: BALLOON_SPAWN_BASE_def BALLOON_SPAWN_PER_PLAYER_def)
  with assms have "0 \<le> spawn_accum (sim_room s) + ?dt * ?rate" by simp
  then have "spawn_accum (sim_room (spawn_balloons ?dt ?s3)) = frac (spawn_accum (sim_room s) + ?dt * ?rate)"
    by (simp add: spawn_balloons_def Let_def spawn_loop_frac s3)
  moreover have "spawn_accum (sim_room (advance_room now s)) =
      spawn_accum (sim_room (spawn_balloons ?dt ?s3))"
    unfolding advance_room_def Let_def
    using timers_fields [OF conjunct1 [OF late_stages_frame]]
    by (simp add: banana_tick_frame powerup_tick_frame)
  ultimately show ?thesis by simp
qed

text \<open>
  Claim C10. If \<open>spawn_accum\<close> is in \<open>[0, 1)\<close> before \<^verbatim>\<open>_advance_room\<close>, it is in
  \<open>[0, 1)\<close> after it: the loop takes 1 off for every balloon it spawns and leaves with the
  fractional part of the accumulated value, which is below 1 and never negative.
\<close>

theorem advance_room_spawn_accum:
  assumes "0 \<le> spawn_accum (sim_room s)" and "spawn_accum (sim_room s) < 1"
  shows "0 \<le> spawn_accum (sim_room (advance_room now s)) \<and>
         spawn_accum (sim_room (advance_room now s)) < 1 \<and>
         spawn_accum (sim_room (advance_room now s)) =
           frac (spawn_accum (sim_room s) + step_dt (sim_room s) now *
             (BALLOON_SPAWN_BASE + BALLOON_SPAWN_PER_PLAYER * real (length (players (sim_room s)))))"
  using advance_room_accum_frac [OF assms(1), of now] by (simp add: frac_lt_1)


lemma advance_room_in_arena:
  "(k, p) \<in> set (players (sim_room (advance_room now s))) \<Longrightarrow>
   30 \<le> p_x p \<and> p_x p \<le> GAME_WIDTH - 30"
proof -
  assume m: "(k, p) \<in> set (players (sim_room (advance_room now s)))"
  have "\<forall>(k, x) \<in> set (positions (sim_room (advance_room now s))). 30 \<le> x \<and> x \<le> GAME_WIDTH - 30"
    unfolding advance_room_positions using move_player_range by auto
  with m show ?thesis by (force simp: positions_def)
qed

lemma advance_room_again_positions:
  assumes "sim_room t = sim_room (advance_room now s)"
  shows "positions (sim_room (advance_room now t)) = positions (sim_room t)"
proof -
  have dt: "step_dt (sim_room t) now = 0"
    using advance_room_timers [of now s] assms by (simp add: step_dt_def)
  have "p_x (move_player now 0 p) = p_x p" if "(k, p) \<in> set (players (sim_room t))" for k p
    using that advance_room_in_arena [of k p now s] assms by (simp add: move_player_idle)
  then have "map (\<lambda>(k, p). (k, p_x (move_player now 0 p))) (players (sim_room t)) =
     map (\<lambda>(k, p). (k, p_x p)) (players (sim_room t))"
    by (intro map_cong) auto
  moreover have "positions (sim_room (advance_room now t)) =
     map (\<lambda>(k, p). (k, p_x (move_player now 0 p))) (players (sim_room t))"
    by (simp only: advance_room_positions dt)
  ultimately show ?thesis
    by (simp only: positions_def)
qed

lemma advance_room_again_lists:
  assumes "sim_room t = sim_room (advance_room now s)"
  shows "subseq (balloons (sim_room (advance_room now t))) (balloons (sim_room t)) \<and>
         subseq (powerups (sim_room (advance_room now t))) (powerups (sim_room t)) \<and>
         subseq (bananas (sim_room (advance_room now t))) (bananas (sim_room t))"
proof -
  have dt: "step_dt (sim_room t) now = 0"
    using advance_room_timers [of now s] assms by (simp add: step_dt_def)
  let ?s3 = "on_room (\<lambda>r. r\<lparr>balloons := move_balloons 0 (balloons r)\<rparr>)
     (on_room (move_players now 0) (on_room (\<lambda>r. r\<lparr>last_update := now\<rparr>) t))"
  have f3: "spawn_accum (sim_room ?s3) = spawn_accum (sim_room t)"
    "powerup_timer (sim_room ?s3) = powerup_timer (sim_room t)"
    "banana_timer (sim_room ?s3) = banana_timer (sim_room t)"
    "powerups (sim_room ?s3) = powerups (sim_room t)"
    "bananas (sim_room ?s3) = bananas (sim_room t)"
    "balloons (sim_room ?s3) = filter (\<lambda>b. \<not> b_y b < - BALLOON_RADIUS) (balloons (sim_room t))"
    by (simp_all add: on_room_def move_players_def move_balloons_idle)
  have idle: "banana_tick 0 (powerup_tick 0 (spawn_balloons 0 ?s3)) = ?s3"
    using advance_room_timers [of now s] assms f3(1-3) by (intro spawn_stages_idle) simp_all
  have adv: "advance_room now t = on_room (collect_bananas now)
      (collect_powerups (resolve_explosions now (expire_fuses now ?s3)))"
    unfolding advance_room_def Let_def dt idle ..
  have "subseq (balloons (sim_room ?s3)) (balloons (sim_room t))"
    by (simp add: f3(6))
  with late_stages_subseq [of now ?s3] show ?thesis
    unfolding adv f3(4,5) by (auto intro: subseq_order.order_trans)
qed

text \<open>
  Claim C4. A second \<^verbatim>\<open>_advance_room\<close> with the \<open>now\<close> of the call just before it
  (whatever the table and the world are by then) moves no player; every falling balloon,
  power-up and banana of its result is one the room already held, unchanged and in the
  same order: none has moved and none was spawned.
\<close>

theorem advance_room_same_now_idle:
  "positions (sim_room (advance_room now ((advance_room now s)\<lparr>sim_db := d, sim_world := w\<rparr>))) =
     positions (sim_room (advance_room now s)) \<and>
   subseq (balloons (sim_room (advance_room now ((advance_room now s)\<lparr>sim_db := d, sim_world := w\<rparr>))))
     (balloons (sim_room (advance_room now s))) \<and>
   subseq (powerups (sim_room (advance_room now ((advance_room now s)\<lparr>sim_db := d, sim_world := w\<rparr>))))
     (powerups (sim_room (advance_room now s))) \<and>
   subseq (bananas (sim_room (advance_room now ((advance_room now s)\<lparr>sim_db := d, sim_world := w\<rparr>))))
     (bananas (sim_room (advance_room now s)))"
  using advance_room_again_positions [of "(advance_room now s)\<lparr>sim_db := d, sim_world := w\<rparr>" now s]
    advance_room_again_lists [of "(advance_room now s)\<lparr>sim_db := d, sim_world := w\<rparr>" now s]
  by simp

text \<open>A player at \<open>x = 760\<close> walking right at full speed is stopped at \<open>770\<close>.\<close>

theorem advance_room_players_in_arena_witness:
  "positions (sim_room (advance_room 30 sim0)) = [(''alice'', 770)] \<and>
   30 \<le> p_x (snd (hd (players (sim_room (advance_room 30 sim0))))) \<and>
   p_x (snd (hd (players (sim_room (advance_room 30 sim0))))) \<le> GAME_WIDTH - 30"
proof -
  have pos: "positions (sim_room (advance_room 30 sim0)) = [(''alice'', 770)]"
    by (simp add: advance_room_positions sim0_def room0_def alice_def step_dt_def move_player_def
        player_speed_def Let_def game_consts)
  then obtain p where "players (sim_room (advance_room 30 sim0)) = [(''alice'', p)]"
    by (auto simp: positions_def)
  with advance_room_players_in_arena [of 30 sim0] pos show ?thesis
    by simp
qed

text \<open>From \<open>0.99\<close> the step adds \<open>0.0425\<close>, spawns one balloon and keeps the rest.\<close>

theorem advance_room_spawn_accum_witness:
  "0 \<le> spawn_accum (sim_room sim0) \<and> spawn_accum (sim_room sim0) < 1 \<and>
   0 \<le> spawn_accum (sim_room (advance_room 30 sim0)) \<and>
   spawn_accum (sim_room (advance_room 30 sim0)) < 1"
proof -
  have h1: "0 \<le> spawn_accum (sim_room sim0)" and h2: "spawn_accum (sim_room sim0) < 1"
    by (simp_all add: sim0_def room0_def)
  from advance_room_spawn_accum [OF h1 h2, of 30] h1 h2 show ?thesis by simp
qed








subsection \<open>What the step depends on\<close>

lemma fold_rel:
  assumes "R s t" and "\<And>x s t. R s t \<Longrightarrow> R (f x s) (f x t)"
  shows "R (fold f xs s) (fold f xs t)"
  using assms(1) by (induction xs arbitrary: s t) (simp_all add: assms(2))

lemma spawn_loop_same_run: "same_run s t \<Longrightarrow> same_run (spawn_loop s) (spawn_loop t)"
proof (induction s arbitrary: t rule: spawn_loop.induct)
  case (1 s)
  show ?case
  proof (cases "1 \<le> spawn_accum (sim_room s)")
    case True
    let ?next = "\<lambda>u. u\<lparr>sim_room :=
                  (sim_room u)\<lparr>balloons := balloons (sim_room u) @ [fst (new_balloon (sim_world u))],
                               spawn_accum := spawn_accum (sim_room u) - 1\<rparr>,
                sim_world := snd (new_balloon (sim_world u))\<rparr>"
    from "1.prems" have "same_run (?next s) (?next t)"
      by (simp add: same_run_def)
    with True have "same_run (spawn_loop (?next s)) (spawn_loop (?next t))"
      by (rule "1.IH")
    moreover from True "1.prems" have "1 \<le> spawn_accum (sim_room t)"
      by (simp add: same_run_def)
    ultimately show ?thesis
      using True by (simp add: spawn_loop.simps [of s] spawn_loop.simps [of t])
  next
    case False
    moreover from False "1.prems" have "\<not> 1 \<le> spawn_accum (sim_room t)"
      by (simp add: same_run_def)
    ultimately show ?thesis
      using "1.prems" by (simp add: spawn_loop.simps [of s] spawn_loop.simps [of t])
  qed
qed

lemma spawn_balloons_same_run: "same_run s t \<Longrightarrow> same_run (spawn_balloons dt s) (spawn_balloons dt t)"
  unfolding spawn_balloons_def Let_def
  by (rule spawn_loop_same_run) (simp add: same_run_def)

lemma powerup_tick_same_run: "same_run s t \<Longrightarrow> same_run (powerup_tick dt s) (powerup_tick dt t)"
  by (simp add: same_run_def powerup_tick_def spawn_powerup_def Let_def split: prod.splits)

lemma banana_tick_same_run: "same_run s t \<Longrightarrow> same_run (banana_tick dt s) (banana_tick dt t)"
  by (simp add: same_run_def banana_tick_def spawn_banana_powerup_def Let_def split: prod.splits)

lemma fuse_step_same_run: "same_run s t \<Longrightarrow> same_run (fuse_step now pb s) (fuse_step now pb t)"
  by (simp add: same_run_def fuse_step_def Let_def split: prod.splits)

lemma expire_fuses_same_run: "same_run s t \<Longrightarrow> same_run (expire_fuses now s) (expire_fuses now t)"
proof -
  assume r: "same_run s t"
  then have "placed_balloons (sim_room t) = placed_balloons (sim_room s)"
    by (simp add: same_run_def)
  with r show ?thesis
    unfolding expire_fuses_def by (simp add: fold_rel fuse_step_same_run)
qed

lemma blast_step_same_run: "same_run s t \<Longrightarrow> same_run (blast_step e b s) (blast_step e b t)"
  by (simp add: same_run_def blast_step_def credit_shooter_def split: option.splits)

lemma explosion_step_same_run:
  "same_run s t \<Longrightarrow> same_run (explosion_step now e s) (explosion_step now e t)"
proof -
  assume r: "same_run s t"
  then have b: "balloons (sim_room t) = balloons (sim_room s)"
    by (simp add: same_run_def)
  show ?thesis
  proof (cases "now > expires_at e")
    case True
    with r show ?thesis by (simp add: same_run_def explosion_step_def)
  next
    case False
    with r b show ?thesis
      by (simp add: explosion_step_def fold_rel blast_step_same_run)
  qed
qed

lemma resolve_explosions_same_run:
  "same_run s t \<Longrightarrow> same_run (resolve_explosions now s) (resolve_explosions now t)"
proof -
  assume r: "same_run s t"
  then have "explosions (sim_room t) = explosions (sim_room s)"
    by (simp add: same_run_def)
  with r show ?thesis
    unfolding resolve_explosions_def by (simp add: fold_rel explosion_step_same_run)
qed

lemma powerup_step_same_run: "same_run s t \<Longrightarrow> same_run (powerup_step pu s) (powerup_step pu t)"
  by (simp add: same_run_def powerup_step_def split: option.splits prod.splits)

lemma collect_powerups_same_run: "same_run s t \<Longrightarrow> same_run (collect_powerups s) (collect_powerups t)"
proof -
  assume r: "same_run s t"
  then have "powerups (sim_room t) = powerups (sim_room s)"
    by (simp add: same_run_def)
  with r show ?thesis
    unfolding collect_powerups_def by (simp add: fold_rel powerup_step_same_run)
qed

lemma on_room_same_run: "same_run s t \<Longrightarrow> same_run (on_room f s) (on_room f t)"
  by (simp add: same_run_def on_room_def)

lemma advance_room_same_run: "same_run s t \<Longrightarrow> same_run (advance_room now s) (advance_room now t)"
proof -
  assume r: "same_run s t"
  then have dt: "step_dt (sim_room t) now = step_dt (sim_room s) now"
    by (simp add: same_run_def)
  show ?thesis
    unfolding advance_room_def Let_def dt
    by (intro on_room_same_run collect_powerups_same_run resolve_explosions_same_run
        expire_fuses_same_run banana_tick_same_run powerup_tick_same_run spawn_balloons_same_run r)
qed

lemma credit_score_columns: "other_columns (credit_score k d) = other_columns d"
  by (rule ext) (simp add: other_columns_def credit_score_def split: option.splits)

lemma credit_powerup_columns: "other_columns (credit_powerup k d) = other_columns d"
  by (rule ext) (simp add: other_columns_def credit_powerup_def split: option.splits)

lemma blast_step_columns: "other_columns (sim_db (blast_step e b s)) = other_columns (sim_db s)"
  by (simp add: blast_step_def credit_shooter_def credit_score_columns split: option.splits)

lemma explosion_step_columns:
  "other_columns (sim_db (explosion_step now e s)) = other_columns (sim_db s)"
proof (cases "now > expires_at e")
  case True
  then show ?thesis by (simp add: explosion_step_def)
next
  case False
  have "other_columns (sim_db (fold (blast_step e) bs s)) = other_columns (sim_db s)" for bs
    by (rule fold_inv) (simp_all add: blast_step_columns)
  with False show ?thesis by (simp add: explosion_step_def)
qed

lemma resolve_explosions_columns:
  "other_columns (sim_db (resolve_explosions now s)) = other_columns (sim_db s)"
  unfolding resolve_explosions_def
  by (rule fold_inv) (simp_all add: explosion_step_columns)

lemma powerup_step_columns: "other_columns (sim_db (powerup_step pu s)) = other_columns (sim_db s)"
  by (simp add: powerup_step_def credit_powerup_columns split: option.splits prod.splits)

lemma collect_powerups_columns: "other_columns (sim_db (collect_powerups s)) = other_columns (sim_db s)"
  unfolding collect_powerups_def
  by (rule fold_inv) (simp_all add: powerup_step_columns)

lemma advance_room_columns: "other_columns (sim_db (advance_room now s)) = other_columns (sim_db s)"
  unfolding advance_room_def Let_def
  by (simp add: on_room_def collect_powerups_columns resolve_explosions_columns expire_fuses_frame
      banana_tick_frame powerup_tick_frame spawn_balloons_frame)

text \<open>
  Claim C2, amended. Two runs of \<^verbatim>\<open>_advance_room\<close> from equal rooms with the same \<open>now\<close> and
  the same values drawn from \<^verbatim>\<open>random\<close>, \<^verbatim>\<open>uuid\<close> and the clock end in equal rooms,
  whatever the statistics table holds; and the table is touched in no column other than
  \<^verbatim>\<open>total_score\<close> and \<^verbatim>\<open>powerups_collected\<close>.
\<close>

theorem advance_room_deterministic_given_draws:
  assumes "sim_room s = sim_room t" and "sim_world s = sim_world t"
  shows "sim_room (advance_room now s) = sim_room (advance_room now t) \<and>
         sim_world (advance_room now s) = sim_world (advance_room now t) \<and>
         other_columns (sim_db (advance_room now s)) = other_columns (sim_db s) \<and>
         other_columns (sim_db (advance_room now t)) = other_columns (sim_db t)"
  using advance_room_same_run [of s t now] assms
  by (simp add: same_run_def advance_room_columns)

lemma spawn_loop_once:
  assumes "1 \<le> spawn_accum (sim_room s)" and "spawn_accum (sim_room s) < 2"
  shows "spawn_loop s =
     s\<lparr>sim_room :=
         (sim_room s)\<lparr>balloons := balloons (sim_room s) @ [fst (new_balloon (sim_world s))],
                      spawn_accum := spawn_accum (sim_room s) - 1\<rparr>,
       sim_world := snd (new_balloon (sim_world s))\<rparr>"
proof -
  let ?s' = "s\<lparr>sim_room :=
         (sim_room s)\<lparr>balloons := balloons (sim_room s) @ [fst (new_balloon (sim_world s))],
                      spawn_accum := spawn_accum (sim_room s) - 1\<rparr>,
       sim_world := snd (new_balloon (sim_world s))\<rparr>"
  from assms(2) have "spawn_loop ?s' = ?s'"
    by (intro spawn_loop_idle) simp
  with assms(1) show ?thesis
    by (simp add: spawn_loop.simps [of s])
qed

lemma advance_room_balloons_calm:
  assumes "placed_balloons (sim_room s) = []" and "explosions (sim_room s) = []"
  shows "balloons (sim_room (advance_room now s)) =
     balloons (sim_room (spawn_balloons (step_dt (sim_room s) now)
       (on_room (\<lambda>r. r\<lparr>balloons := move_balloons (step_dt (sim_room s) now) (balloons r)\<rparr>)
         (on_room (move_players now (step_dt (sim_room s) now))
           (on_room (\<lambda>r. r\<lparr>last_update := now\<rparr>) s)))))"
proof -
  let ?dt = "step_dt (sim_room s) now"
  let ?s4 = "spawn_balloons ?dt
       (on_room (\<lambda>r. r\<lparr>balloons := move_balloons ?dt (balloons r)\<rparr>)
         (on_room (move_players now ?dt) (on_room (\<lambda>r. r\<lparr>last_update := now\<rparr>) s)))"
  let ?s5 = "banana_tick ?dt (powerup_tick ?dt ?s4)"
  have "explosions (sim_room ?s4) = [] \<and> placed_balloons (sim_room ?s4) = []"
    using assms by (simp add: spawn_balloons_def Let_def spawn_loop_frame on_room_def move_players_def)
  then have e5: "explosions (sim_room ?s5) = []" and p5: "placed_balloons (sim_room ?s5) = []"
    by (simp_all add: banana_tick_def powerup_tick_def spawn_powerup_def spawn_banana_powerup_def
        Let_def split: prod.splits)
  from p5 have "expire_fuses now ?s5 = ?s5"
    by (simp add: expire_fuses_def)
  moreover from e5 have "resolve_explosions now ?s5 = ?s5"
    by (simp add: resolve_explosions_def)
  ultimately have "advance_room now s = on_room (collect_bananas now) (collect_powerups ?s5)"
    by (simp add: advance_room_def Let_def)
  then show ?thesis
    by (simp add: on_room_def collect_bananas_frame collect_powerups_frame banana_tick_frame
        powerup_tick_frame)
qed

lemma spawned_balloon_world0: "map b_x (balloons (sim_room (advance_room 30 sim0))) = [40]"
proof -
  have pl: "placed_balloons (sim_room sim0) = []" "explosions (sim_room sim0) = []"
    by (simp_all add: sim0_def room0_def)
  show ?thesis
    unfolding advance_room_balloons_calm [OF pl]
    by (simp add: spawn_balloons_def Let_def on_room_def move_players_def sim0_def room0_def
        step_dt_def spawn_loop_once new_balloon_def uuid4_hex_def random_uniform_def
        random_choice_def tick_def world0_def game_consts split: prod.splits)
qed

lemma spawned_balloon_world1: "map b_x (balloons (sim_room (advance_room 30 sim1))) = [400]"
proof -
  have pl: "placed_balloons (sim_room sim1) = []" "explosions (sim_room sim1) = []"
    by (simp_all add: sim1_def room0_def)
  show ?thesis
    unfolding advance_room_balloons_calm [OF pl]
    by (simp add: spawn_balloons_def Let_def on_room_def move_players_def sim1_def room0_def
        step_dt_def spawn_loop_once new_balloon_def uuid4_hex_def random_uniform_def
        random_choice_def tick_def world0_def world1_def game_consts split: prod.splits)
qed

text \<open>
  Claim C2 as written fails: the same room and the same \<open>now\<close> with two different values of
  \<^verbatim>\<open>random.random()\<close> give two different rooms, since the balloon that
  \<^verbatim>\<open>_new_balloon\<close> spawns takes its \<open>x\<close> from the generator (40 against 400).
\<close>

theorem advance_room_random_counterexample:
  "sim_room sim0 = sim_room sim1 \<and> sim_db sim0 = sim_db sim1 \<and>
   sim_room (advance_room 30 sim0) \<noteq> sim_room (advance_room 30 sim1)"
proof -
  have "map b_x (balloons (sim_room (advance_room 30 sim0))) \<noteq>
        map b_x (balloons (sim_room (advance_room 30 sim1)))"
    unfolding spawned_balloon_world0 spawned_balloon_world1 by simp
  then have "sim_room (advance_room 30 sim0) \<noteq> sim_room (advance_room 30 sim1)"
    by auto
  then show ?thesis
    by (simp add: sim0_def sim1_def)
qed

text \<open>
  The same room stepped with an empty table and with a table holding the player's row.
\<close>

theorem advance_room_deterministic_given_draws_witness:
  "sim_room sim0 = sim_room (sim0\<lparr>sim_db := [1 \<mapsto> \<lparr>username = ''alice'', total_score = 0,
       games_played = 1, balloons_placed = 0, powerups_collected = 0\<rparr>]\<rparr>) \<and>
   sim_room (advance_room 30 sim0) =
   sim_room (advance_room 30 (sim0\<lparr>sim_db := [1 \<mapsto> \<lparr>username = ''alice'', total_score = 0,
       games_played = 1, balloons_placed = 0, powerups_collected = 0\<rparr>]\<rparr>))"
  using advance_room_deterministic_given_draws [of sim0 "sim0\<lparr>sim_db := [1 \<mapsto> \<lparr>username = ''alice'', total_score = 0,
       games_played = 1, balloons_placed = 0, powerups_collected = 0\<rparr>]\<rparr>" 30]
  by simp

subsection \<open>Polling and input\<close>

lemma map_entry_const:
  "map_of ps k = Some v \<Longrightarrow> AList.map_entry k (\<lambda>_. f v) ps = AList.map_entry k f ps"
  by (induction ps) (auto split: if_splits)

lemma map_of_map_entry_present:
  "map_of ps k = Some v \<Longrightarrow> map_of (AList.map_entry k f ps) k = Some (f v)"
  by (simp add: map_of_map_entry)

lemma fold_delete_keeps:
  "(k, p) \<in> set ps \<Longrightarrow> k \<notin> set ks \<Longrightarrow> (k, p) \<in> set (fold AList.delete ks ps)"
  by (induction ks arbitrary: ps) (auto simp: AList.delete_eq)

lemma advance_room_keys:
  "map fst (players (sim_room (advance_room now s))) = map fst (players (sim_room s))"
proof -
  have "map fst (positions (sim_room (advance_room now s))) = map fst (players (sim_room s))"
    unfolding advance_room_positions by (simp add: split_def comp_def)
  then show ?thesis by (simp add: positions_def split_def comp_def)
qed

text \<open>
  Each key occurs once in a dict, so a player whose \<open>last_seen\<close> is \<open>now\<close> is not among the stale keys.
\<close>

lemma cleanup_players_keeps:
  assumes "distinct (map fst (players r))" and "map_of (players r) k = Some p" and "last_seen p = now"
  shows "(k, p) \<in> set (players (cleanup_players now r))"
proof -
  have m: "(k, p) \<in> set (players r)"
    using assms(2) by (rule map_of_SomeD)
  have "k \<notin> fst ` {(k', q). (k', q) \<in> set (players r) \<and> now - last_seen q > PLAYER_TIMEOUT}"
  proof
    assume "k \<in> fst ` {(k', q). (k', q) \<in> set (players r) \<and> now - last_seen q > PLAYER_TIMEOUT}"
    then obtain q where q: "(k, q) \<in> set (players r)" and st: "now - last_seen q > PLAYER_TIMEOUT"
      by auto
    from assms(1) q have "map_of (players r) k = Some q" by simp
    with assms(2,3) st show False by (simp add: PLAYER_TIMEOUT_def)
  qed
  then have "k \<notin> set (map fst (filter (\<lambda>(k, p). now - last_seen p > PLAYER_TIMEOUT) (players r)))"
    by auto
  with m show ?thesis
    by (simp add: cleanup_players_def Let_def fold_delete_keeps)
qed

text \<open>
  Claim C9. A poll of a known room by a known player answers with a snapshot and leaves the
  polling player in the room, whatever its \<open>last_seen\<close> was: \<^verbatim>\<open>last_seen\<close> is set to the
  current time before \<^verbatim>\<open>_cleanup_players\<close> runs, and \<^verbatim>\<open>_advance_room\<close> removes no
  player. The players of a room are a dict, so the keys of the list are distinct.
\<close>

theorem api_poll_keeps_poller:
  assumes "ROOMS sv room_id = Some rm" and "map_of (players rm) player_id = Some player"
    and "distinct (map fst (players rm))"
  shows "\<exists>state sv' rm'. api_poll room_id player_id sv = Inr (state, sv') \<and>
           ROOMS sv' room_id = Some rm' \<and> player_id \<in> set (map fst (players rm')) \<and>
           length (snap_players state) = length (players rm')"
proof -
  let ?now = "fst (now_clock (srv_world sv))"
  let ?w1 = "snd (now_clock (srv_world sv))"
  let ?rm1 = "rm\<lparr>players := AList.map_entry player_id (\<lambda>p. p\<lparr>last_seen := ?now\<rparr>) (players rm)\<rparr>"
  let ?rm2 = "cleanup_players ?now ?rm1"
  let ?s = "advance_room ?now \<lparr>sim_room = ?rm2, sim_db = srv_db sv, sim_world = ?w1\<rparr>"
  have d1: "distinct (map fst (players ?rm1))"
    using assms(3) by (simp add: distinct_map_entry)
  have m1: "map_of (players ?rm1) player_id = Some (player\<lparr>last_seen := ?now\<rparr>)"
    using assms(2) by (simp add: map_of_map_entry_present)
  have "(player_id, player\<lparr>last_seen := ?now\<rparr>) \<in> set (players ?rm2)"
    using d1 m1 by (rule cleanup_players_keeps) simp
  then have "player_id \<in> set (map fst (players ?rm2))"
    by force
  then have k: "player_id \<in> set (map fst (players (sim_room ?s)))"
    by (simp only: advance_room_keys sim.simps)
  have "api_poll room_id player_id sv =
      Inr (fst (room_state (sim_room ?s) (sim_world ?s)),
           sv\<lparr>ROOMS := (ROOMS sv)(room_id \<mapsto> sim_room ?s), srv_db := sim_db ?s,
              srv_world := snd (room_state (sim_room ?s) (sim_world ?s))\<rparr>)"
    using assms(1,2) by (simp add: api_poll_def Let_def split_def)
  moreover have "length (snap_players (fst (room_state (sim_room ?s) (sim_world ?s)))) =
      length (players (sim_room ?s))"
    by (simp add: room_state_def split_def Let_def)
  ultimately show ?thesis
    using k by simp
qed

text \<open>
  The only player of the room polls 80 seconds after it was last seen, with a timeout of 30.
\<close>

theorem api_poll_keeps_poller_witness:
  "ROOMS srv0 ''lobby'' = Some room0 \<and> map_of (players room0) ''alice'' = Some alice \<and>
   distinct (map fst (players room0)) \<and>
   fst (now_clock (srv_world srv0)) - last_seen alice > PLAYER_TIMEOUT \<and>
   (\<exists>state sv' rm'. api_poll ''lobby'' ''alice'' srv0 = Inr (state, sv') \<and>
           ROOMS sv' ''lobby'' = Some rm' \<and> ''alice'' \<in> set (map fst (players rm')) \<and>
           length (snap_players state) = length (players rm'))"
proof -
  have h: "ROOMS srv0 ''lobby'' = Some room0" "map_of (players room0) ''alice'' = Some alice"
    "distinct (map fst (players room0))"
    by (simp_all add: srv0_def room0_def)
  have "fst (now_clock (srv_world srv0)) - last_seen alice > PLAYER_TIMEOUT"
    by (simp add: srv0_def world0_def now_clock_def alice_def PLAYER_TIMEOUT_def)
  with api_poll_keeps_poller [OF h] h show ?thesis
    by simp
qed

lemma place_banana_part_frame:
  "placed_balloons (sim_room (snd (place_banana_part k now f ps))) = placed_balloons (sim_room (snd ps)) \<and>
   players (sim_room (snd (place_banana_part k now f ps))) = players (sim_room (snd ps)) \<and>
   sim_db (snd (place_banana_part k now f ps)) = sim_db (snd ps) \<and>
   last_shot (fst (place_banana_part k now f ps)) = last_shot (fst ps)"
  by (simp add: place_banana_part_def Let_def split_def)

lemma place_banana_part_off: "place_banana_part k now False ps = ps"
  by (simp add: place_banana_part_def Let_def)

lemma place_balloon_part_off: "place_balloon_part k now False ps = ps"
  by (simp add: place_balloon_part_def Let_def)

lemma place_balloon_part_denied:
  "\<not> (now - last_shot p \<ge> PLAYER_COOLDOWN \<and>
      int (length (filter (\<lambda>b. pb_player_id b = k) (placed_balloons (sim_room s)))) < balloon_capacity p) \<Longrightarrow>
   place_balloon_part k now True (p, s) = (p, s)"
  by (auto simp add: place_balloon_part_def Let_def)

lemma place_balloon_part_allowed:
  "now - last_shot p \<ge> PLAYER_COOLDOWN \<Longrightarrow>
   int (length (filter (\<lambda>b. pb_player_id b = k) (placed_balloons (sim_room s)))) < balloon_capacity p \<Longrightarrow>
   place_balloon_part k now True (p, s) =
     (p\<lparr>last_shot := now\<rparr>,
      s\<lparr>sim_room := (sim_room s)\<lparr>placed_balloons := placed_balloons (sim_room s) @
            [\<lparr>pb_id = fst (uuid4_hex 8 (sim_world s)), pb_player_id = k, pb_x = p_x p,
              pb_y = GAME_HEIGHT - 45, placed_at = now, fuse = BALLOON_FUSE,
              pb_radius = blast_radius p\<rparr>]\<rparr>,
        sim_db := credit_balloon (user_id p) (sim_db s),
        sim_world := snd (uuid4_hex 8 (sim_world s))\<rparr>)"
  by (simp add: place_balloon_part_def Let_def split_def)

lemma api_input_found:
  assumes "ROOMS sv room_id = Some rm" and "map_of (players rm) player_id = Some player"
  shows "api_input room_id player_id move place_balloon place_banana sv =
     (let now = fst (now_clock (srv_world sv));
          ps2 = place_balloon_part player_id now place_balloon
                  (player\<lparr>last_seen := now, vx := max (- 1) (min 1 move)\<rparr>,
                   \<lparr>sim_room = rm, sim_db = srv_db sv, sim_world = snd (now_clock (srv_world sv))\<rparr>);
          ps3 = place_banana_part player_id now place_banana ps2
      in Inr (sv\<lparr>ROOMS := (ROOMS sv)(room_id \<mapsto>
                    (sim_room (snd ps3))\<lparr>players :=
                       AList.map_entry player_id (\<lambda>_. fst ps3) (players (sim_room (snd ps3)))\<rparr>),
                 srv_db := sim_db (snd ps3), srv_world := sim_world (snd ps3)\<rparr>))"
  using assms by (simp add: api_input_def Let_def split_def)

text \<open>
  Claim C5. For a known room and player, an input that asks for a balloon always answers 200.
  If the cooldown has passed and the player has fewer live placed balloons than its capacity,
  one balloon is appended with the player's current \<open>x\<close> and \<open>blast_radius\<close>, \<open>last_shot\<close>
  becomes \<open>now\<close> and the sink is notified. Otherwise the request acts exactly as the same
  request without the balloon flag: no balloon, \<open>last_shot\<close> and the table as they were. A
  request with neither flag changes \<open>last_seen\<close> and \<open>vx\<close> of the player and nothing else
  in the room.
\<close>

theorem api_input_balloon_placement:
  fixes sv :: server
  defines "now \<equiv> fst (now_clock (srv_world sv))"
  assumes "ROOMS sv room_id = Some rm" and "map_of (players rm) player_id = Some player"
  shows "\<exists>sv' rm' player'.
     api_input room_id player_id move True place_banana sv = Inr sv' \<and>
     ROOMS sv' room_id = Some rm' \<and> map_of (players rm') player_id = Some player' \<and>
     (if now - last_shot player \<ge> PLAYER_COOLDOWN \<and>
         int (length (filter (\<lambda>b. pb_player_id b = player_id) (placed_balloons rm)))
           < balloon_capacity player
      then placed_balloons rm' = placed_balloons rm @
             [\<lparr>pb_id = fst (uuid4_hex 8 (snd (now_clock (srv_world sv)))),
               pb_player_id = player_id, pb_x = p_x player, pb_y = GAME_HEIGHT - 45,
               placed_at = now, fuse = BALLOON_FUSE, pb_radius = blast_radius player\<rparr>] \<and>
           last_shot player' = now \<and>
           srv_db sv' = credit_balloon (user_id player) (srv_db sv)
      else api_input room_id player_id move True place_banana sv =
             api_input room_id player_id move False place_banana sv \<and>
           placed_balloons rm' = placed_balloons rm \<and>
           last_shot player' = last_shot player \<and>
           srv_db sv' = srv_db sv) \<and>
     api_input room_id player_id move False False sv =
       Inr (sv\<lparr>ROOMS := (ROOMS sv)(room_id \<mapsto>
                  rm\<lparr>players := AList.map_entry player_id
                       (\<lambda>p. p\<lparr>last_seen := now, vx := max (- 1) (min 1 move)\<rparr>) (players rm)\<rparr>),
               srv_world := snd (now_clock (srv_world sv))\<rparr>)"
proof -
  let ?p1 = "player\<lparr>last_seen := now, vx := max (- 1) (min 1 move)\<rparr>"
  let ?s1 = "\<lparr>sim_room = rm, sim_db = srv_db sv, sim_world = snd (now_clock (srv_world sv))\<rparr>"
  let ?ok = "now - last_shot player \<ge> PLAYER_COOLDOWN \<and>
         int (length (filter (\<lambda>b. pb_player_id b = player_id) (placed_balloons rm)))
           < balloon_capacity player"
  have "AList.map_entry player_id (\<lambda>_. ?p1) (players rm) =
        AList.map_entry player_id (\<lambda>p. p\<lparr>last_seen := now, vx := max (- 1) (min 1 move)\<rparr>) (players rm)"
    using assms(3) by (rule map_entry_const)
  then have idle: "api_input room_id player_id move False False sv =
       Inr (sv\<lparr>ROOMS := (ROOMS sv)(room_id \<mapsto>
                  rm\<lparr>players := AList.map_entry player_id
                       (\<lambda>p. p\<lparr>last_seen := now, vx := max (- 1) (min 1 move)\<rparr>) (players rm)\<rparr>),
               srv_world := snd (now_clock (srv_world sv))\<rparr>)"
    by (simp add: api_input_found [OF assms(2,3)] place_balloon_part_off place_banana_part_off
        now_def [symmetric])
  let ?ps2 = "place_balloon_part player_id now True (?p1, ?s1)"
  let ?ps3 = "place_banana_part player_id now place_banana ?ps2"
  let ?rm' = "(sim_room (snd ?ps3))\<lparr>players :=
                AList.map_entry player_id (\<lambda>_. fst ?ps3) (players (sim_room (snd ?ps3)))\<rparr>"
  let ?sv' = "sv\<lparr>ROOMS := (ROOMS sv)(room_id \<mapsto> ?rm'), srv_db := sim_db (snd ?ps3),
                srv_world := sim_world (snd ?ps3)\<rparr>"
  have run: "api_input room_id player_id move True place_banana sv = Inr ?sv'"
    by (simp add: api_input_found [OF assms(2,3)] Let_def now_def [symmetric])
  have room': "ROOMS ?sv' room_id = Some ?rm'"
    by simp
  have pl2: "players (sim_room (snd ?ps2)) = players rm"
    by (cases ?ok) (simp_all add: place_balloon_part_allowed place_balloon_part_denied)
  then have pl3: "players (sim_room (snd ?ps3)) = players rm"
    by (simp add: place_banana_part_frame)
  have me: "map_of (players ?rm') player_id = Some (fst ?ps3)"
    using assms(3) by (simp add: pl3 map_of_map_entry_present)
  have tail: "placed_balloons ?rm' = placed_balloons (sim_room (snd ?ps2))"
    "last_shot (fst ?ps3) = last_shot (fst ?ps2)" "srv_db ?sv' = sim_db (snd ?ps2)"
    by (simp_all add: place_banana_part_frame)
  show ?thesis
  proof (cases ?ok)
    case True
    then have "?ps2 = (?p1\<lparr>last_shot := now\<rparr>,
        ?s1\<lparr>sim_room := rm\<lparr>placed_balloons := placed_balloons rm @
            [\<lparr>pb_id = fst (uuid4_hex 8 (snd (now_clock (srv_world sv)))), pb_player_id = player_id,
              pb_x = p_x player, pb_y = GAME_HEIGHT - 45, placed_at = now, fuse = BALLOON_FUSE,
              pb_radius = blast_radius player\<rparr>]\<rparr>,
          sim_db := credit_balloon (user_id player) (srv_db sv),
          sim_world := snd (uuid4_hex 8 (snd (now_clock (srv_world sv))))\<rparr>)"
      by (simp add: place_balloon_part_allowed)
    then have "placed_balloons (sim_room (snd ?ps2)) = placed_balloons rm @
            [\<lparr>pb_id = fst (uuid4_hex 8 (snd (now_clock (srv_world sv)))), pb_player_id = player_id,
              pb_x = p_x player, pb_y = GAME_HEIGHT - 45, placed_at = now, fuse = BALLOON_FUSE,
              pb_radius = blast_radius player\<rparr>]"
      and "last_shot (fst ?ps2) = now"
      and "sim_db (snd ?ps2) = credit_balloon (user_id player) (srv_db sv)"
      by simp_all
    with True run room' me tail idle show ?thesis
      by (intro exI [of _ ?sv'] exI [of _ ?rm'] exI [of _ "fst ?ps3"]) (simp only: if_True simp_thms)
  next
    case False
    then have ps2: "?ps2 = (?p1, ?s1)"
      by (simp add: place_balloon_part_denied)
    then have "placed_balloons (sim_room (snd ?ps2)) = placed_balloons rm"
      and "last_shot (fst ?ps2) = last_shot player"
      and "sim_db (snd ?ps2) = srv_db sv"
      by simp_all
    moreover have "api_input room_id player_id move True place_banana sv =
             api_input room_id player_id move False place_banana sv"
      by (simp add: api_input_found [OF assms(2,3)] Let_def now_def [symmetric] ps2
          place_balloon_part_off)
    ultimately show ?thesis
      using False run room' me tail idle
      by (intro exI [of _ ?sv'] exI [of _ ?rm'] exI [of _ "fst ?ps3"]) (simp only: if_False simp_thms)
  qed
qed

text \<open>
  A first balloon of a player with capacity 1, 100 seconds after its last shot.
\<close>

theorem api_input_balloon_placement_witness:
  "ROOMS srv0 ''lobby'' = Some room0 \<and> map_of (players room0) ''alice'' = Some alice \<and>
   (\<exists>sv' rm'. api_input ''lobby'' ''alice'' 1 True False srv0 = Inr sv' \<and>
      ROOMS sv' ''lobby'' = Some rm' \<and>
      map (\<lambda>b. (pb_player_id b, pb_x b, pb_y b, placed_at b, fuse b, pb_radius b)) (placed_balloons rm') =
        [(''alice'', 760, 555, 100, 2.4, 70)])"
proof -
  have h: "ROOMS srv0 ''lobby'' = Some room0" "map_of (players room0) ''alice'' = Some alice"
    by (simp_all add: srv0_def room0_def)
  have c: "fst (now_clock (srv_world srv0)) = 100" "last_shot alice = 0" "balloon_capacity alice = 1"
    "placed_balloons room0 = []" "p_x alice = 760" "blast_radius alice = 70"
    by (simp_all add: srv0_def world0_def now_clock_def alice_def room0_def)
  from api_input_balloon_placement [OF h, of 1 False] h show ?thesis
    unfolding c by (auto simp add: game_consts)
qed

subsection \<open>Explosions\<close>

lemma map_entry_absent: "map_of ps k = None \<Longrightarrow> AList.map_entry k f ps = ps"
  by (induction ps) (auto split: if_splits)

lemma map_entry_compose:
  "AList.map_entry k f (AList.map_entry k g ps) = AList.map_entry k (\<lambda>p. f (g p)) ps"
  by (induction ps) auto

lemma map_entry_same: "(\<And>p. f p = p) \<Longrightarrow> AList.map_entry k f ps = ps"
  by (induction ps) auto

lemma credit_shooter_players:
  "players (sim_room (credit_shooter e s)) =
   AList.map_entry (e_player_id e) (\<lambda>p. p\<lparr>score := score p + 1\<rparr>) (players (sim_room s))"
  by (simp add: credit_shooter_def map_entry_absent split: option.splits)

lemma credit_shooter_lists:
  "balloons (sim_room (credit_shooter e s)) = balloons (sim_room s) \<and>
   explosions (sim_room (credit_shooter e s)) = explosions (sim_room s)"
  by (simp add: credit_shooter_def split: option.splits)

text \<open>
  The inner loop of an explosion: the balloons already passed and kept are misses, so the
  \<^verbatim>\<open>remove\<close> of a hit deletes that very balloon; every hit adds one to the shooter's score.
\<close>

lemma blast_fold:
  assumes "balloons (sim_room s) = kept @ rest" and "\<forall>b\<in>set kept. \<not> blast_hits e b"
  shows "balloons (sim_room (fold (blast_step e) rest s)) = kept @ filter (\<lambda>b. \<not> blast_hits e b) rest \<and>
         explosions (sim_room (fold (blast_step e) rest s)) = explosions (sim_room s) \<and>
         players (sim_room (fold (blast_step e) rest s)) =
           AList.map_entry (e_player_id e)
             (\<lambda>p. p\<lparr>score := score p + int (length (filter (blast_hits e) rest))\<rparr>)
             (players (sim_room s))"
  using assms
proof (induction rest arbitrary: s kept)
  case Nil
  then show ?case by (simp add: map_entry_same)
next
  case (Cons b rest)
  show ?case
  proof (cases "blast_hits e b")
    case True
    let ?s' = "blast_step e b s"
    from True Cons.prems have "b \<notin> set kept" by auto
    then have "remove1 b (kept @ b # rest) = kept @ rest"
      by (simp add: remove1_append)
    with True Cons.prems(1) have b': "balloons (sim_room ?s') = kept @ rest"
      by (simp add: blast_step_def credit_shooter_lists)
    have e': "explosions (sim_room ?s') = explosions (sim_room s)"
      using True by (simp add: blast_step_def credit_shooter_lists)
    have p': "players (sim_room ?s') =
        AList.map_entry (e_player_id e) (\<lambda>p. p\<lparr>score := score p + 1\<rparr>) (players (sim_room s))"
      using True by (simp add: blast_step_def credit_shooter_players)
    have "(\<lambda>p. p\<lparr>score := score p + 1\<rparr>\<lparr>score := score (p\<lparr>score := score p + 1\<rparr>) + int n\<rparr>) =
          (\<lambda>p. p\<lparr>score := score p + (1 + int n)\<rparr>)" for n
      by (rule ext) simp
    with Cons.IH [OF b' Cons.prems(2)] True e' p' show ?thesis
      by (simp add: map_entry_compose add.assoc)
  next
    case False
    with Cons.prems have "balloons (sim_room s) = (kept @ [b]) @ rest"
      and "\<forall>x\<in>set (kept @ [b]). \<not> blast_hits e x"
      by simp_all
    from Cons.IH [OF this] False show ?thesis
      by (simp add: blast_step_def)
  qed
qed

lemma blast_owner_Nil: "blast_owner now [] b = None"
  by (simp add: blast_owner_def)

lemma blast_owner_Cons:
  "blast_owner now (e # es) b =
     (if live_hit now e b then Some (e_player_id e) else blast_owner now es b)"
  by (simp add: blast_owner_def)

lemma blast_owner_None:
  "(blast_owner now es b = None) = (\<not> (\<exists>e\<in>set es. live_hit now e b))"
  by (induction es) (simp_all add: blast_owner_Nil blast_owner_Cons)

lemma count_disjoint:
  "(\<And>b. \<not> (P b \<and> Q b)) \<Longrightarrow>
   length (filter (\<lambda>b. P b \<or> Q b) bs) = length (filter P bs) + length (filter Q bs)"
  by (induction bs) auto

lemma count_split:
  "length (filter (\<lambda>b. (if H b then Some c else g b) = Some k) bs) =
     (if k = c then length (filter H bs) else 0) +
     length (filter (\<lambda>b. g b = Some k) (filter (\<lambda>b. \<not> H b) bs))"
proof -
  have "(\<lambda>b. (if H b then Some c else g b) = Some k) =
        (\<lambda>b. (H b \<and> k = c) \<or> (\<not> H b \<and> g b = Some k))"
    by (rule ext) auto
  moreover have "length (filter (\<lambda>b. (H b \<and> k = c) \<or> (\<not> H b \<and> g b = Some k)) bs) =
      length (filter (\<lambda>b. H b \<and> k = c) bs) + length (filter (\<lambda>b. \<not> H b \<and> g b = Some k) bs)"
    by (rule count_disjoint) blast
  moreover have "length (filter (\<lambda>b. H b \<and> k = c) bs) = (if k = c then length (filter H bs) else 0)"
    by simp
  moreover have "filter (\<lambda>b. g b = Some k) (filter (\<lambda>b. \<not> H b) bs) =
      filter (\<lambda>b. \<not> H b \<and> g b = Some k) bs"
    by simp
  ultimately show ?thesis by simp
qed

lemma explosion_step_expired:
  "now > expires_at e \<Longrightarrow>
   explosion_step now e s = s\<lparr>sim_room := (sim_room s)\<lparr>explosions := remove1 e (explosions (sim_room s))\<rparr>\<rparr>"
  by (simp add: explosion_step_def)

lemma explosion_step_live:
  assumes "\<not> now > expires_at e"
  shows "balloons (sim_room (explosion_step now e s)) =
           filter (\<lambda>b. \<not> blast_hits e b) (balloons (sim_room s)) \<and>
         explosions (sim_room (explosion_step now e s)) = explosions (sim_room s) \<and>
         players (sim_room (explosion_step now e s)) =
           AList.map_entry (e_player_id e)
             (\<lambda>p. p\<lparr>score := score p + int (length (filter (blast_hits e) (balloons (sim_room s))))\<rparr>)
             (players (sim_room s))"
  using blast_fold [of s "[]" "balloons (sim_room s)" e] assms
  by (simp add: explosion_step_def)

lemma resolve_fold:
  assumes "explosions (sim_room s) = kept @ rest" and "\<forall>e\<in>set kept. \<not> now > expires_at e"
  shows "explosions (sim_room (fold (explosion_step now) rest s)) =
           kept @ filter (\<lambda>e. \<not> now > expires_at e) rest \<and>
         balloons (sim_room (fold (explosion_step now) rest s)) =
           filter (\<lambda>b. blast_owner now rest b = None) (balloons (sim_room s)) \<and>
         (\<forall>k. map_of (players (sim_room (fold (explosion_step now) rest s))) k =
            map_option
              (\<lambda>p. p\<lparr>score := score p +
                 int (length (filter (\<lambda>b. blast_owner now rest b = Some k) (balloons (sim_room s))))\<rparr>)
              (map_of (players (sim_room s)) k))"
  using assms
proof (induction rest arbitrary: s kept)
  case Nil
  then show ?case
    by (simp add: blast_owner_Nil option.map_ident)
next
  case (Cons e rest)
  show ?case
  proof (cases "now > expires_at e")
    case True
    let ?s' = "explosion_step now e s"
    from True Cons.prems have "e \<notin> set kept" by auto
    then have "remove1 e (kept @ e # rest) = kept @ rest"
      by (simp add: remove1_append)
    with True Cons.prems(1) have e': "explosions (sim_room ?s') = kept @ rest"
      by (simp add: explosion_step_expired)
    have same: "balloons (sim_room ?s') = balloons (sim_room s)"
      "players (sim_room ?s') = players (sim_room s)"
      using True by (simp_all add: explosion_step_expired)
    have own: "blast_owner now (e # rest) b = blast_owner now rest b" for b
      using True by (simp add: blast_owner_Cons live_hit_def)
    from Cons.IH [OF e' Cons.prems(2)] True show ?thesis
      by (simp add: same own)
  next
    case False
    let ?s' = "explosion_step now e s"
    let ?bs = "balloons (sim_room s)"
    note live = explosion_step_live [OF False, of s]
    from live Cons.prems(1) have e': "explosions (sim_room ?s') = (kept @ [e]) @ rest"
      by simp
    from False Cons.prems(2) have k': "\<forall>x\<in>set (kept @ [e]). \<not> now > expires_at x"
      by simp
    note ih = Cons.IH [OF e' k']
    have own: "blast_owner now (e # rest) b =
        (if blast_hits e b then Some (e_player_id e) else blast_owner now rest b)" for b
      using False by (simp add: blast_owner_Cons live_hit_def)
    have ex: "explosions (sim_room (fold (explosion_step now) (e # rest) s)) =
        kept @ filter (\<lambda>e. \<not> now > expires_at e) (e # rest)"
      using ih False by simp
    have bl: "balloons (sim_room (fold (explosion_step now) (e # rest) s)) =
        filter (\<lambda>b. blast_owner now (e # rest) b = None) ?bs"
    proof -
      have "(\<lambda>b. blast_owner now (e # rest) b = None) =
            (\<lambda>b. \<not> blast_hits e b \<and> blast_owner now rest b = None)"
        by (rule ext) (simp add: own)
      with ih live show ?thesis
        by (simp add: conj_commute)
    qed
    have sc: "map_of (players (sim_room (fold (explosion_step now) (e # rest) s))) k =
        map_option
          (\<lambda>p. p\<lparr>score := score p +
             int (length (filter (\<lambda>b. blast_owner now (e # rest) b = Some k) ?bs))\<rparr>)
          (map_of (players (sim_room s)) k)" for k
    proof -
      let ?m = "length (filter (\<lambda>b. blast_owner now rest b = Some k)
                  (filter (\<lambda>b. \<not> blast_hits e b) ?bs))"
      let ?n = "length (filter (blast_hits e) ?bs)"
      have cnt: "length (filter (\<lambda>b. blast_owner now (e # rest) b = Some k) ?bs) =
          (if k = e_player_id e then ?n else 0) + ?m"
        unfolding own by (rule count_split)
      from ih live have "map_of (players (sim_room (fold (explosion_step now) (e # rest) s))) k =
          map_option (\<lambda>p. p\<lparr>score := score p + int ?m\<rparr>)
            (map_of (AList.map_entry (e_player_id e) (\<lambda>p. p\<lparr>score := score p + int ?n\<rparr>)
               (players (sim_room s))) k)"
        by simp
      then show ?thesis
        unfolding cnt
        by (cases "map_of (players (sim_room s)) k") (auto simp add: map_of_map_entry)
    qed
    from ex bl sc show ?thesis by blast
  qed
qed

lemma resolve_explosions_stage:
  "explosions (sim_room (resolve_explosions now s)) =
     filter (\<lambda>e. \<not> now > expires_at e) (explosions (sim_room s)) \<and>
   balloons (sim_room (resolve_explosions now s)) =
     filter (\<lambda>b. blast_owner now (explosions (sim_room s)) b = None) (balloons (sim_room s)) \<and>
   (\<forall>k. map_of (players (sim_room (resolve_explosions now s))) k =
      map_option
        (\<lambda>p. p\<lparr>score := score p +
           int (length (filter (\<lambda>b. blast_owner now (explosions (sim_room s)) b = Some k)
                  (balloons (sim_room s))))\<rparr>)
        (map_of (players (sim_room s)) k))"
  unfolding resolve_explosions_def
  using resolve_fold [of s "[]" "explosions (sim_room s)" now] by simp


lemma apply_powerup_score: "score (fst (apply_powerup p t w)) = score p"
  by (cases t) (simp_all split: prod.splits)

lemma map_of_map_values:
  "map_of (map (\<lambda>(k, p). (k, f p)) ps) k = map_option f (map_of ps k)"
  by (induction ps) auto

lemma map_of_scores: "map_of (scores r) k = map_option score (map_of (players r) k)"
  by (simp add: scores_def map_of_map_values)

lemma powerup_step_scores:
  "scores (sim_room (powerup_step pu s)) = scores (sim_room s) \<and>
   explosions (sim_room (powerup_step pu s)) = explosions (sim_room s)"
proof (cases "split_first (\<lambda>(k, p). powerup_reach pu p) (players (sim_room s))")
  case None
  then show ?thesis by (simp add: powerup_step_def)
next
  case (Some a)
  obtain pre k p post where a: "a = (pre, (k, p), post)" by (metis prod.exhaust)
  from Some a have "players (sim_room s) = pre @ (k, p) # post"
    using split_first_SomeD by fastforce
  with Some a apply_powerup_score [of p "pu_type pu" "sim_world s"] show ?thesis
    by (simp add: powerup_step_def scores_def split_def Let_def)
qed

lemma collect_powerups_scores:
  "scores (sim_room (collect_powerups s)) = scores (sim_room s) \<and>
   explosions (sim_room (collect_powerups s)) = explosions (sim_room s)"
  unfolding collect_powerups_def
  by (rule fold_inv) (simp_all add: powerup_step_scores)

lemma banana_step_scores:
  "scores (banana_step now bn r) = scores r \<and> explosions (banana_step now bn r) = explosions r"
proof (cases "split_first (\<lambda>(k, p). banana_reach bn p) (players r)")
  case None
  then show ?thesis by (simp add: banana_step_def)
next
  case (Some a)
  obtain pre k p post where a: "a = (pre, (k, p), post)" by (metis prod.exhaust)
  from Some a have "players r = pre @ (k, p) # post"
    using split_first_SomeD by fastforce
  with Some a show ?thesis
    by (simp add: banana_step_def scores_def)
qed

lemma collect_bananas_scores:
  "scores (collect_bananas now r) = scores r \<and> explosions (collect_bananas now r) = explosions r"
  unfolding collect_bananas_def
  by (rule fold_inv) (simp_all add: banana_step_scores)

lemma before_explosions_scores: "scores (sim_room (before_explosions now s)) = scores (sim_room s)"
  by (simp add: before_explosions_def Let_def scores_def expire_fuses_frame banana_tick_frame
      powerup_tick_frame spawn_balloons_frame on_room_def move_players_def move_player_def
      split_def comp_def)

lemma advance_room_through:
  "advance_room now s = on_room (collect_bananas now)
     (collect_powerups (resolve_explosions now (before_explosions now s)))"
  by (simp add: advance_room_def before_explosions_def Let_def)

lemma advance_room_explosions:
  "explosions (sim_room (advance_room now s)) =
     filter (\<lambda>e. \<not> now > expires_at e) (explosions (sim_room (before_explosions now s))) \<and>
   balloons (sim_room (advance_room now s)) =
     filter (\<lambda>b. blast_owner now (explosions (sim_room (before_explosions now s))) b = None)
       (balloons (sim_room (before_explosions now s))) \<and>
   (\<forall>k. map_of (scores (sim_room (advance_room now s))) k =
      map_option
        (\<lambda>sc. sc + int (length (filter
            (\<lambda>b. blast_owner now (explosions (sim_room (before_explosions now s))) b = Some k)
            (balloons (sim_room (before_explosions now s))))))
        (map_of (scores (sim_room s)) k))"
proof -
  let ?t = "before_explosions now s"
  let ?u = "resolve_explosions now ?t"
  note st = resolve_explosions_stage [where now = now and s = ?t]
  have fr: "explosions (sim_room (advance_room now s)) = explosions (sim_room ?u)"
    "balloons (sim_room (advance_room now s)) = balloons (sim_room ?u)"
    "scores (sim_room (advance_room now s)) = scores (sim_room ?u)"
    by (simp_all add: advance_room_through on_room_def collect_bananas_scores
        collect_powerups_scores collect_bananas_frame collect_powerups_frame)
  have "map_of (scores (sim_room ?u)) k =
      map_option
        (\<lambda>sc. sc + int (length (filter
            (\<lambda>b. blast_owner now (explosions (sim_room ?t)) b = Some k) (balloons (sim_room ?t)))))
        (map_of (scores (sim_room s)) k)" for k
  proof -
    from st have "map_of (players (sim_room ?u)) k =
        map_option
          (\<lambda>p. p\<lparr>score := score p + int (length (filter
              (\<lambda>b. blast_owner now (explosions (sim_room ?t)) b = Some k) (balloons (sim_room ?t))))\<rparr>)
          (map_of (players (sim_room ?t)) k)"
      by blast
    then have "map_of (scores (sim_room ?u)) k =
        map_option
          (\<lambda>sc. sc + int (length (filter
              (\<lambda>b. blast_owner now (explosions (sim_room ?t)) b = Some k) (balloons (sim_room ?t)))))
          (map_of (scores (sim_room ?t)) k)"
      by (simp add: map_of_scores option.map_comp comp_def)
    then show ?thesis
      by (simp only: before_explosions_scores)
  qed
  with st fr show ?thesis by simp
qed

lemma blast_owner_None_distance:
  "(blast_owner now es b = None) =
   (\<not> (\<exists>e\<in>set es. \<not> now > expires_at e \<and>
          (e_x e - b_x b) * (e_x e - b_x b) + (e_y e - b_y b) * (e_y e - b_y b)
            \<le> (e_radius e + b_radius b) ^ 2))"
  by (simp add: blast_owner_None live_hit_def blast_hits_def Let_def)

lemma explosion_step_turn:
  "(if now > expires_at e
    then sim_room (explosion_step now e s) =
           (sim_room s)\<lparr>explosions := remove1 e (explosions (sim_room s))\<rparr>
    else balloons (sim_room (explosion_step now e s)) =
           filter (\<lambda>b. \<not> (e_x e - b_x b) * (e_x e - b_x b) + (e_y e - b_y b) * (e_y e - b_y b)
                          \<le> (e_radius e + b_radius b) ^ 2) (balloons (sim_room s)) \<and>
         players (sim_room (explosion_step now e s)) =
           AList.map_entry (e_player_id e)
             (\<lambda>p. p\<lparr>score := score p + int (length (filter (blast_hits e) (balloons (sim_room s))))\<rparr>)
             (players (sim_room s)) \<and>
         explosions (sim_room (explosion_step now e s)) = explosions (sim_room s))"
proof (cases "now > expires_at e")
  case True
  then show ?thesis by (simp add: explosion_step_def)
next
  case False
  have "(\<lambda>b. \<not> blast_hits e b) =
        (\<lambda>b. \<not> (e_x e - b_x b) * (e_x e - b_x b) + (e_y e - b_y b) * (e_y e - b_y b)
                  \<le> (e_radius e + b_radius b) ^ 2)"
    by (rule ext) (simp add: blast_hits_def Let_def)
  with explosion_step_live [OF False, of s] False show ?thesis
    by simp
qed

text \<open>
  Claim C6. First, one turn of the loop over the explosions: an explosion with
  \<open>now > expires_at\<close> is removed and nothing else in the room changes, so it destroys no
  balloon; a live one keeps exactly the balloons whose squared distance exceeds
  \<open>(e_radius + b_radius)\<^sup>2\<close>, and the player stored under its \<open>player_id\<close>, if there is
  one, gains one point for each balloon destroyed (\<^const>\<open>AList.map_entry\<close> leaves a list
  without that key as it is). Second, the whole loop \<^const>\<open>resolve_explosions\<close>: the
  expired explosions are gone and the live ones stay; the balloons left are those no live
  explosion reaches; and the player under key \<open>k\<close>, if present, gains exactly one point for
  each balloon whose first live explosion reaching it belongs to \<open>k\<close>, so a balloon under
  several explosions counts once. Third, \<^const>\<open>advance_room\<close> runs this loop on the state
  the earlier stages leave, and the explosions, balloons and scores it ends with are the
  ones the loop produced. Last, no first live explosion means no live explosion within
  the squared distance.
\<close>

theorem explosion_resolution:
  "(if now > expires_at e
    then sim_room (explosion_step now e s) =
           (sim_room s)\<lparr>explosions := remove1 e (explosions (sim_room s))\<rparr>
    else balloons (sim_room (explosion_step now e s)) =
           filter (\<lambda>b. \<not> (e_x e - b_x b) * (e_x e - b_x b) + (e_y e - b_y b) * (e_y e - b_y b)
                          \<le> (e_radius e + b_radius b) ^ 2) (balloons (sim_room s)) \<and>
         players (sim_room (explosion_step now e s)) =
           AList.map_entry (e_player_id e)
             (\<lambda>p. p\<lparr>score := score p + int (length (filter (blast_hits e) (balloons (sim_room s))))\<rparr>)
             (players (sim_room s)) \<and>
         explosions (sim_room (explosion_step now e s)) = explosions (sim_room s)) \<and>
   (explosions (sim_room (resolve_explosions now s)) =
      filter (\<lambda>e. \<not> now > expires_at e) (explosions (sim_room s)) \<and>
    balloons (sim_room (resolve_explosions now s)) =
      filter (\<lambda>b. blast_owner now (explosions (sim_room s)) b = None) (balloons (sim_room s)) \<and>
    (\<forall>k. map_of (players (sim_room (resolve_explosions now s))) k =
       map_option
         (\<lambda>p. p\<lparr>score := score p +
            int (length (filter (\<lambda>b. blast_owner now (explosions (sim_room s)) b = Some k)
                   (balloons (sim_room s))))\<rparr>)
         (map_of (players (sim_room s)) k))) \<and>
   (advance_room now s = on_room (collect_bananas now)
      (collect_powerups (resolve_explosions now (before_explosions now s))) \<and>
    explosions (sim_room (advance_room now s)) =
      filter (\<lambda>e. \<not> now > expires_at e) (explosions (sim_room (before_explosions now s))) \<and>
    balloons (sim_room (advance_room now s)) =
      filter (\<lambda>b. blast_owner now (explosions (sim_room (before_explosions now s))) b = None)
        (balloons (sim_room (before_explosions now s))) \<and>
    (\<forall>k. map_of (scores (sim_room (advance_room now s))) k =
       map_option
         (\<lambda>sc. sc + int (length (filter
             (\<lambda>b. blast_owner now (explosions (sim_room (before_explosions now s))) b = Some k)
             (balloons (sim_room (before_explosions now s))))))
         (map_of (scores (sim_room s)) k))) \<and>
   (blast_owner now es b = None) =
     (\<not> (\<exists>x\<in>set es. \<not> now > expires_at x \<and>
            (e_x x - b_x b) * (e_x x - b_x b) + (e_y x - b_y b) * (e_y x - b_y b)
              \<le> (e_radius x + b_radius b) ^ 2))"
  using explosion_step_turn [where now = now and e = e and s = s]
    resolve_explosions_stage [where now = now and s = s]
    advance_room_through [where now = now and s = s]
    advance_room_explosions [where now = now and s = s]
    blast_owner_None_distance [where now = now and es = es and b = b]
  by (intro conjI) (elim conjE, assumption)+

subsection \<open>Pickups\<close>

lemma changed_same: "changed xs xs = 0"
  by (simp add: changed_def zip_same_conv_map)

lemma changed_one: "changed (pre @ x # post) (pre @ y # post) \<le> 1"
  by (simp add: changed_def zip_same_conv_map)

lemma changed_triangle:
  "length xs = length ys \<Longrightarrow> length ys = length zs \<Longrightarrow>
   changed xs zs \<le> changed xs ys + changed ys zs"
  by (induction xs ys zs rule: list_induct3) (auto simp: changed_def)

lemma powerup_step_length:
  "length (players (sim_room (powerup_step pu s))) = length (players (sim_room s))"
proof (cases "split_first (\<lambda>(k, p). powerup_reach pu p) (players (sim_room s))")
  case None
  then show ?thesis by (simp add: powerup_step_def)
next
  case (Some a)
  obtain pre k p post where a: "a = (pre, (k, p), post)" by (metis prod.exhaust)
  from Some a have "players (sim_room s) = pre @ (k, p) # post"
    using split_first_SomeD by fastforce
  with Some a show ?thesis
    by (simp add: powerup_step_def split_def Let_def)
qed

lemma powerup_step_cases:
  "powerup_step pu s = s \<or>
   (powerups (sim_room (powerup_step pu s)) = remove1 pu (powerups (sim_room s)) \<and>
    changed (players (sim_room s)) (players (sim_room (powerup_step pu s))) \<le> 1)"
proof (cases "split_first (\<lambda>(k, p). powerup_reach pu p) (players (sim_room s))")
  case None
  then show ?thesis by (simp add: powerup_step_def)
next
  case (Some a)
  obtain pre k p post where a: "a = (pre, (k, p), post)" by (metis prod.exhaust)
  from Some a have "players (sim_room s) = pre @ (k, p) # post"
    using split_first_SomeD by fastforce
  with Some a changed_one [of pre "(k, p)" post] show ?thesis
    by (simp add: powerup_step_def split_def Let_def)
qed

lemma count_list_pos: "0 < count_list xs x \<Longrightarrow> x \<in> set xs"
  by (induction xs) (auto split: if_splits)

lemma collect_fold_powerups:
  assumes "\<forall>x. count_list rest x \<le> count_list (powerups (sim_room s)) x"
  shows "length (players (sim_room (fold powerup_step rest s))) = length (players (sim_room s)) \<and>
         changed (players (sim_room s)) (players (sim_room (fold powerup_step rest s))) +
           length (powerups (sim_room (fold powerup_step rest s))) \<le> length (powerups (sim_room s))"
  using assms
proof (induction rest arbitrary: s)
  case Nil
  then show ?case by (simp add: changed_same)
next
  case (Cons pu rest)
  let ?s' = "powerup_step pu s"
  let ?t = "fold powerup_step rest ?s'"
  from Cons.prems have "count_list (pu # rest) pu \<le> count_list (powerups (sim_room s)) pu"
    by blast
  then have here: "0 < count_list (powerups (sim_room s)) pu"
    by simp
  then have mem: "pu \<in> set (powerups (sim_room s))"
    by (rule count_list_pos)
  have len': "length (players (sim_room ?s')) = length (players (sim_room s))"
    by (rule powerup_step_length)
  from powerup_step_cases [of pu s] show ?case
  proof
    assume same: "?s' = s"
    have "\<forall>x. count_list rest x \<le> count_list (powerups (sim_room s)) x"
    proof
      fix x
      from Cons.prems have "count_list (pu # rest) x \<le> count_list (powerups (sim_room s)) x"
        by blast
      then show "count_list rest x \<le> count_list (powerups (sim_room s)) x"
        by (simp split: if_splits)
    qed
    from Cons.IH [OF this] same show ?thesis by simp
  next
    assume step: "powerups (sim_room ?s') = remove1 pu (powerups (sim_room s)) \<and>
       changed (players (sim_room s)) (players (sim_room ?s')) \<le> 1"
    have inv: "\<forall>x. count_list rest x \<le> count_list (powerups (sim_room ?s')) x"
    proof
      fix x
      from Cons.prems have "count_list (pu # rest) x \<le> count_list (powerups (sim_room s)) x"
        by blast
      with step show "count_list rest x \<le> count_list (powerups (sim_room ?s')) x"
        by (auto simp add: count_list_remove1 split: if_splits)
    qed
    from Cons.IH [OF inv] have ih:
      "length (players (sim_room ?t)) = length (players (sim_room ?s'))"
      "changed (players (sim_room ?s')) (players (sim_room ?t)) + length (powerups (sim_room ?t))
         \<le> length (powerups (sim_room ?s'))"
      by simp_all
    from mem have "0 < length (powerups (sim_room s))"
      by (rule length_pos_if_in_set)
    with step mem have l: "Suc (length (powerups (sim_room ?s'))) = length (powerups (sim_room s))"
      by (simp add: length_remove1)
    have "changed (players (sim_room s)) (players (sim_room ?t)) \<le>
        changed (players (sim_room s)) (players (sim_room ?s')) +
        changed (players (sim_room ?s')) (players (sim_room ?t))"
      using len' ih(1) by (intro changed_triangle) simp_all
    with step ih l len' show ?thesis by simp
  qed
qed

lemma collect_powerups_consumers:
  "changed (players (sim_room s)) (players (sim_room (collect_powerups s))) +
     length (powerups (sim_room (collect_powerups s))) \<le> length (powerups (sim_room s))"
  unfolding collect_powerups_def
  using collect_fold_powerups [of "powerups (sim_room s)" s] by simp


lemma banana_step_length: "length (players (banana_step now bn r)) = length (players r)"
proof (cases "split_first (\<lambda>(k, p). banana_reach bn p) (players r)")
  case None
  then show ?thesis by (simp add: banana_step_def)
next
  case (Some a)
  obtain pre k p post where a: "a = (pre, (k, p), post)" by (metis prod.exhaust)
  from Some a have "players r = pre @ (k, p) # post"
    using split_first_SomeD by fastforce
  with Some a show ?thesis
    by (simp add: banana_step_def)
qed

lemma banana_step_cases:
  "banana_step now bn r = r \<or>
   (bananas (banana_step now bn r) = remove1 bn (bananas r) \<and>
    changed (players r) (players (banana_step now bn r)) \<le> 1)"
proof (cases "split_first (\<lambda>(k, p). banana_reach bn p) (players r)")
  case None
  then show ?thesis by (simp add: banana_step_def)
next
  case (Some a)
  obtain pre k p post where a: "a = (pre, (k, p), post)" by (metis prod.exhaust)
  from Some a have "players r = pre @ (k, p) # post"
    using split_first_SomeD by fastforce
  with Some a changed_one [of pre "(k, p)" post] show ?thesis
    by (simp add: banana_step_def)
qed

lemma collect_fold_bananas:
  assumes "\<forall>x. count_list rest x \<le> count_list (bananas r) x"
  shows "length (players (fold (banana_step now) rest r)) = length (players r) \<and>
         changed (players r) (players (fold (banana_step now) rest r)) +
           length (bananas (fold (banana_step now) rest r)) \<le> length (bananas r)"
  using assms
proof (induction rest arbitrary: r)
  case Nil
  then show ?case by (simp add: changed_same)
next
  case (Cons bn rest)
  let ?r' = "banana_step now bn r"
  let ?t = "fold (banana_step now) rest ?r'"
  from Cons.prems have "count_list (bn # rest) bn \<le> count_list (bananas r) bn"
    by blast
  then have "0 < count_list (bananas r) bn"
    by simp
  then have mem: "bn \<in> set (bananas r)"
    by (rule count_list_pos)
  have len': "length (players ?r') = length (players r)"
    by (rule banana_step_length)
  from banana_step_cases [of now bn r] show ?case
  proof
    assume same: "?r' = r"
    have "\<forall>x. count_list rest x \<le> count_list (bananas r) x"
    proof
      fix x
      from Cons.prems have "count_list (bn # rest) x \<le> count_list (bananas r) x"
        by blast
      then show "count_list rest x \<le> count_list (bananas r) x"
        by (simp split: if_splits)
    qed
    from Cons.IH [OF this] same show ?thesis by simp
  next
    assume step: "bananas ?r' = remove1 bn (bananas r) \<and> changed (players r) (players ?r') \<le> 1"
    have inv: "\<forall>x. count_list rest x \<le> count_list (bananas ?r') x"
    proof
      fix x
      from Cons.prems have "count_list (bn # rest) x \<le> count_list (bananas r) x"
        by blast
      with step show "count_list rest x \<le> count_list (bananas ?r') x"
        by (auto simp add: count_list_remove1 split: if_splits)
    qed
    from Cons.IH [OF inv] have ih:
      "length (players ?t) = length (players ?r')"
      "changed (players ?r') (players ?t) + length (bananas ?t) \<le> length (bananas ?r')"
      by simp_all
    from mem have "0 < length (bananas r)"
      by (rule length_pos_if_in_set)
    with step mem have l: "Suc (length (bananas ?r')) = length (bananas r)"
      by (simp add: length_remove1)
    have "changed (players r) (players ?t) \<le>
        changed (players r) (players ?r') + changed (players ?r') (players ?t)"
      using len' ih(1) by (intro changed_triangle) simp_all
    with step ih l len' show ?thesis by simp
  qed
qed

lemma collect_bananas_consumers:
  "changed (players r) (players (collect_bananas now r)) + length (bananas (collect_bananas now r))
     \<le> length (bananas r)"
  unfolding collect_bananas_def
  using collect_fold_bananas [of "bananas r" r now] by simp

lemma powerup_step_one:
  "length (players (sim_room (powerup_step pu s))) = length (players (sim_room s)) \<and>
   changed (players (sim_room s)) (players (sim_room (powerup_step pu s))) \<le> 1 \<and>
   (if \<exists>(k, p)\<in>set (players (sim_room s)). powerup_reach pu p
    then powerups (sim_room (powerup_step pu s)) = remove1 pu (powerups (sim_room s))
    else powerup_step pu s = s)"
proof (cases "split_first (\<lambda>(k, p). powerup_reach pu p) (players (sim_room s))")
  case None
  then have "\<not> (\<exists>(k, p)\<in>set (players (sim_room s)). powerup_reach pu p)"
    by (simp add: split_first_None)
  with None show ?thesis
    by (simp add: powerup_step_def changed_same)
next
  case (Some a)
  obtain pre k p post where a: "a = (pre, (k, p), post)" by (metis prod.exhaust)
  from Some a have sp: "players (sim_room s) = pre @ (k, p) # post" and "powerup_reach pu p"
    using split_first_SomeD [of "\<lambda>(k, p). powerup_reach pu p" "players (sim_room s)" pre "(k, p)" post]
    by simp_all
  then have "\<exists>(k, p)\<in>set (players (sim_room s)). powerup_reach pu p"
    by auto
  with Some a sp show ?thesis
    using changed_one [of pre "(k, p)" post]
    by (simp add: powerup_step_def split_def Let_def)
qed

lemma banana_step_one:
  "length (players (banana_step now bn r)) = length (players r) \<and>
   changed (players r) (players (banana_step now bn r)) \<le> 1 \<and>
   (if \<exists>(k, p)\<in>set (players r). banana_reach bn p
    then bananas (banana_step now bn r) = remove1 bn (bananas r)
    else banana_step now bn r = r)"
proof (cases "split_first (\<lambda>(k, p). banana_reach bn p) (players r)")
  case None
  then have "\<not> (\<exists>(k, p)\<in>set (players r). banana_reach bn p)"
    by (simp add: split_first_None)
  with None show ?thesis
    by (simp add: banana_step_def changed_same)
next
  case (Some a)
  obtain pre k p post where a: "a = (pre, (k, p), post)" by (metis prod.exhaust)
  from Some a have sp: "players r = pre @ (k, p) # post" and "banana_reach bn p"
    using split_first_SomeD [of "\<lambda>(k, p). banana_reach bn p" "players r" pre "(k, p)" post]
    by simp_all
  then have "\<exists>(k, p)\<in>set (players r). banana_reach bn p"
    by auto
  with Some a sp show ?thesis
    using changed_one [of pre "(k, p)" post]
    by (simp add: banana_step_def)
qed

text \<open>
  Claim C7. One turn of the loop over the power-ups, and one of the loop over the bananas:
  the list of players keeps its length and differs from the one before in at most one
  place, however many players are within reach; the item is removed when some player is
  within reach, and otherwise nothing changes at all. Over the whole loop, which visits
  every item of the copy once, the number of players that changed is at most the number
  of items that left the room.
\<close>

theorem pickup_single_consumer:
  "length (players (sim_room (powerup_step pu s))) = length (players (sim_room s)) \<and>
   changed (players (sim_room s)) (players (sim_room (powerup_step pu s))) \<le> 1 \<and>
   (if \<exists>(k, p)\<in>set (players (sim_room s)). powerup_reach pu p
    then powerups (sim_room (powerup_step pu s)) = remove1 pu (powerups (sim_room s))
    else powerup_step pu s = s) \<and>
   length (players (banana_step now bn r)) = length (players r) \<and>
   changed (players r) (players (banana_step now bn r)) \<le> 1 \<and>
   (if \<exists>(k, p)\<in>set (players r). banana_reach bn p
    then bananas (banana_step now bn r) = remove1 bn (bananas r)
    else banana_step now bn r = r) \<and>
   changed (players (sim_room s)) (players (sim_room (collect_powerups s))) +
     length (powerups (sim_room (collect_powerups s))) \<le> length (powerups (sim_room s)) \<and>
   changed (players r) (players (collect_bananas now r)) + length (bananas (collect_bananas now r))
     \<le> length (bananas r)"
  using powerup_step_one [of pu s] banana_step_one [of now bn r]
    collect_powerups_consumers [of s] collect_bananas_consumers [of r now]
  by simp

lemma nth_mid: "i \<noteq> length pre \<Longrightarrow> (pre @ x # post) ! i = (pre @ y # post) ! i"
  by (simp add: nth_append nth_Cons')

text \<open>
  Claim C8. One turn of the loop over the bananas: a player whose \<open>id\<close> is the banana's
  \<open>player_id\<close> is left as it was, wherever it stands; a player that did change has got
  \<open>slow_until = max(slow_until, now + BANANA_SLOW_DURATION)\<close> and nothing else; and no
  player's \<open>slow_until\<close> decreases.
\<close>

theorem banana_step_spares_owner:
  "length (players (banana_step now bn r)) = length (players r) \<and>
   (\<forall>i < length (players r).
      (p_id (snd (players r ! i)) = bn_player_id bn \<longrightarrow>
         players (banana_step now bn r) ! i = players r ! i) \<and>
      (players (banana_step now bn r) ! i \<noteq> players r ! i \<longrightarrow>
         players (banana_step now bn r) ! i =
           (fst (players r ! i),
            (snd (players r ! i))\<lparr>slow_until :=
               max (slow_until (snd (players r ! i))) (now + BANANA_SLOW_DURATION)\<rparr>)) \<and>
      slow_until (snd (players r ! i)) \<le> slow_until (snd (players (banana_step now bn r) ! i)))"
proof (cases "split_first (\<lambda>(k, p). banana_reach bn p) (players r)")
  case None
  then show ?thesis by (simp add: banana_step_def)
next
  case (Some a)
  obtain pre k p post where a: "a = (pre, (k, p), post)" by (metis prod.exhaust)
  from Some a have sp: "players r = pre @ (k, p) # post" and rc: "banana_reach bn p"
    using split_first_SomeD [of "\<lambda>(k, p). banana_reach bn p" "players r" pre "(k, p)" post]
    by simp_all
  let ?p' = "p\<lparr>slow_until := max (slow_until p) (now + BANANA_SLOW_DURATION)\<rparr>"
  have after: "players (banana_step now bn r) = pre @ (k, ?p') # post"
    using Some a by (simp add: banana_step_def)
  from rc have own: "p_id p \<noteq> bn_player_id bn"
    by (simp add: banana_reach_def)
  have "length (players (banana_step now bn r)) = length (players r)"
    by (simp add: after sp)
  moreover have "(p_id (snd (players r ! i)) = bn_player_id bn \<longrightarrow>
         players (banana_step now bn r) ! i = players r ! i) \<and>
      (players (banana_step now bn r) ! i \<noteq> players r ! i \<longrightarrow>
         players (banana_step now bn r) ! i =
           (fst (players r ! i),
            (snd (players r ! i))\<lparr>slow_until :=
               max (slow_until (snd (players r ! i))) (now + BANANA_SLOW_DURATION)\<rparr>)) \<and>
      slow_until (snd (players r ! i)) \<le> slow_until (snd (players (banana_step now bn r) ! i))"
    for i
  proof (cases "i = length pre")
    case True
    with own show ?thesis by (simp add: after sp)
  next
    case False
    then have "(pre @ (k, ?p') # post) ! i = (pre @ (k, p) # post) ! i"
      by (simp add: nth_mid)
    then show ?thesis by (simp add: after sp)
  qed
  ultimately show ?thesis by simp
qed

subsection \<open>The loops on a concrete room\<close>

text \<open>
  An explosion of radius 70 at \<open>(400, 555)\<close> and three balloons of radius 18: the ones at
  distance 55 and 50 are destroyed and give the shooter two points, the one at distance 155
  stays. Once expired, the same explosion is dropped and touches no balloon. With an expired
  explosion over the third balloon, and a second live one that reaches the balloon at
  distance 50 again and a fourth balloon, the loop drops the expired explosion, leaves the
  third balloon, and gives two points to the first shooter and one to the second.
\<close>

theorem explosion_resolution_witness:
  "map b_id (balloons (sim_room (explosion_step 30 explosion0 sim2))) = [''b2''] \<and>
   map (\<lambda>(k, p). (k, score p)) (players (sim_room (explosion_step 30 explosion0 sim2))) =
     [(''alice'', 2), (''bob'', 0)] \<and>
   balloons (sim_room (explosion_step 50 explosion0 sim2)) = balloons (sim_room sim2) \<and>
   explosions (sim_room (explosion_step 50 explosion0 sim2)) = [] \<and>
   map e_id (explosions (sim_room (resolve_explosions 30 sim3))) = [''0c0c0c0c'', ''0d0d0d0d''] \<and>
   map b_id (balloons (sim_room (resolve_explosions 30 sim3))) = [''b2''] \<and>
   map_of (players (sim_room (resolve_explosions 30 sim3))) ''alice'' = Some (alice\<lparr>score := 2\<rparr>) \<and>
   map_of (players (sim_room (resolve_explosions 30 sim3))) ''bob'' = Some (bob\<lparr>score := 1\<rparr>)"
proof -
  note turn30 = explosion_resolution
    [where now = 30 and e = explosion0 and s = sim2, THEN conjunct1]
  note turn50 = explosion_resolution
    [where now = 50 and e = explosion0 and s = sim2, THEN conjunct1]
  note stage = explosion_resolution
    [where now = 30 and e = explosion0 and s = sim3, THEN conjunct2, THEN conjunct1]
  have r: "explosions (sim_room sim3) = [explosion_old, explosion0, explosion1]"
    "balloons (sim_room sim3) = [balloon_at ''b1'' 400 500, balloon_at ''b2'' 400 400,
        balloon_at ''b3'' 450 555, balloon_at ''b4'' 500 555]"
    "map_of (players (sim_room sim3)) ''alice'' = Some alice"
    "map_of (players (sim_room sim3)) ''bob'' = Some bob"
    by (simp_all add: sim3_def room3_def room2_def room0_def)
  have own: "blast_owner 30 [explosion_old, explosion0, explosion1] (balloon_at ''b1'' 400 500) = Some ''alice''"
    "blast_owner 30 [explosion_old, explosion0, explosion1] (balloon_at ''b2'' 400 400) = None"
    "blast_owner 30 [explosion_old, explosion0, explosion1] (balloon_at ''b3'' 450 555) = Some ''alice''"
    "blast_owner 30 [explosion_old, explosion0, explosion1] (balloon_at ''b4'' 500 555) = Some ''bob''"
    by (simp_all add: blast_owner_def live_hit_def blast_hits_def explosion_old_def explosion0_def
        explosion1_def balloon_at_def Let_def)
  have ex: "expires_at explosion_old = 25" "expires_at explosion0 = 40" "expires_at explosion1 = 40"
    "e_id explosion0 = ''0c0c0c0c''" "e_id explosion1 = ''0d0d0d0d''"
    by (simp_all add: explosion_old_def explosion0_def explosion1_def)
  from stage have "map e_id (explosions (sim_room (resolve_explosions 30 sim3))) = [''0c0c0c0c'', ''0d0d0d0d''] \<and>
   map b_id (balloons (sim_room (resolve_explosions 30 sim3))) = [''b2''] \<and>
   map_of (players (sim_room (resolve_explosions 30 sim3))) ''alice'' = Some (alice\<lparr>score := 2\<rparr>) \<and>
   map_of (players (sim_room (resolve_explosions 30 sim3))) ''bob'' = Some (bob\<lparr>score := 1\<rparr>)"
    by (simp add: r own ex) (simp add: balloon_at_def alice_def bob_def)
  moreover from turn30 turn50 have
    "map b_id (balloons (sim_room (explosion_step 30 explosion0 sim2))) = [''b2''] \<and>
     map (\<lambda>(k, p). (k, score p)) (players (sim_room (explosion_step 30 explosion0 sim2))) =
       [(''alice'', 2), (''bob'', 0)] \<and>
     balloons (sim_room (explosion_step 50 explosion0 sim2)) = balloons (sim_room sim2) \<and>
     explosions (sim_room (explosion_step 50 explosion0 sim2)) = []"
    by (simp add: sim2_def room2_def room0_def explosion0_def balloon_at_def blast_hits_def
        alice_def bob_def Let_def)
  ultimately show ?thesis by simp
qed

text \<open>
  Two players within reach of the same power-up, and a banana under its owner with another
  player within reach: one player changes in each case and the item is gone.
\<close>

theorem pickup_single_consumer_witness:
  "powerup_reach powerup0 alice \<and> powerup_reach powerup0 bob \<and>
   changed (players (sim_room sim2)) (players (sim_room (powerup_step powerup0 sim2))) \<le> 1 \<and>
   powerups (sim_room (powerup_step powerup0 sim2)) = [] \<and>
   banana_reach banana0 bob \<and>
   changed (players room2) (players (banana_step 30 banana0 room2)) \<le> 1 \<and>
   bananas (banana_step 30 banana0 room2) = []"
  using pickup_single_consumer [where pu = powerup0 and s = sim2 and now = 30 and bn = banana0 and r = room2]
  by (simp add: sim2_def room2_def room0_def powerup0_def banana0_def powerup_reach_def
      banana_reach_def alice_def bob_def Let_def game_consts)

text \<open>
  The owner stands on its own banana and is untouched; the player next to it is slowed until 33.
\<close>

theorem banana_step_spares_owner_witness:
  "p_id (snd (players room2 ! 0)) = bn_player_id banana0 \<and>
   players (banana_step 30 banana0 room2) ! 0 = players room2 ! 0 \<and>
   slow_until (snd (players room2 ! 1)) \<le> slow_until (snd (players (banana_step 30 banana0 room2) ! 1)) \<and>
   map (\<lambda>(k, p). (k, slow_until p)) (players (banana_step 30 banana0 room2)) =
     [(''alice'', 0), (''bob'', 33)]"
proof -
  have ev: "map (\<lambda>(k, p). (k, slow_until p)) (players (banana_step 30 banana0 room2)) =
     [(''alice'', 0), (''bob'', 33)]"
    by (simp add: banana_step_def room2_def room0_def banana0_def banana_reach_def alice_def
        bob_def Let_def game_consts)
  have own: "p_id (snd (players room2 ! 0)) = bn_player_id banana0"
    by (simp add: room2_def banana0_def alice_def)
  have len: "0 < length (players room2)" "1 < length (players room2)"
    by (simp_all add: room2_def)
  from banana_step_spares_owner [where now = 30 and bn = banana0 and r = room2] own len ev show ?thesis
    by simp
qed

end
